theory Spec2Isabelle
  imports Complex_Main "HOL-Library.Multiset"
begin

section \<open>The local task scheduler of the stress management coach\<close>

text \<open>
  This theory embeds the class \<open>AITaskSchedulerAgent\<close> of the front end (the local
  fallback scheduler) and the input validation of \<open>StressCoachApp\<close>.

  Conventions of the embedding.
  \<^item> Minutes, stress levels and clock readings are JavaScript numbers holding integers
    (\<open>parseInt\<close>, \<open>Math.round\<close>, \<open>Date\<close> time values); they are modelled as \<open>int\<close>.
    \<open>NaN\<close> durations are outside the model.
  \<^item> Scores, confidences and hours are modelled as exact rationals. The constants
    the scheduler assigns (0.9, 0.8, 0.6, 0.5, 0.0, 0.85 and the urgency bands) and the
    comparisons on them behave in IEEE doubles as they do here; the weighted sums of the
    scoring functions are exact here and rounded in the source.
  \<^item> Objects that the source shares by reference are addressed by their index in the
    array that holds them: a schedule item's \<open>time_block\<close> is the index of its slot in
    \<open>availableSlots\<close>, and the rescue pass addresses schedule items by their index
    in \<open>schedule\<close>. The final \<open>availableSlots\<close> array is returned with the schedule,
    since the items of the source point into it.
  \<^item> \<open>console.log\<close> calls have no effect on the result and are left out.
\<close>

subsection \<open>Data model\<close>

record task =
  task_id :: string
  title :: string
  description :: string
  estimated_duration :: int
  priority :: string
  category :: string
  deadline :: "string option"
  is_flexible :: bool

datatype task_kind = deep_work | creative | administrative | routine

record analysis_rec =
  deadline_urgency :: rat
  importance_score :: rat
  complexity_score :: rat
  task_type :: task_kind
  ai_confidence :: rat
  stress_compatibility :: rat
  final_priority :: rat

record analyzed_task = task +
  analysis :: "analysis_rec option"

record time_slot =
  start_time :: string
  end_time :: string
  duration_minutes :: int
  is_available :: bool
  label :: string
  slot_description :: string

record available_slot = time_slot +
  remaining_time :: int
  used :: bool

datatype completion = complete | partial | scaled | not_scheduled

record schedule_item =
  task :: analyzed_task
  time_block :: "nat option"
  allocated_duration :: int
  completion_status :: completion
  scheduling_confidence :: rat
  item_deadline_urgency :: rat
  item_notes :: "string list"

record stress_analysis_rec =
  level :: int
  impact :: string
  recommended_actions :: "string list"

record task_analysis_rec =
  total_tasks :: nat
  scheduled_tasks :: nat

record scheduling_summary_rec =
  total_work_hours :: rat
  average_scheduling_confidence :: rat

record insights_rec =
  scheduling_summary :: scheduling_summary_rec
  mood_optimization :: string
  recommendations :: "string list"

record ai_metadata_rec =
  ai_enabled :: bool
  analysis_method :: string
  generated_at :: int

record schedule_result =
  optimized_schedule :: "schedule_item list"
  slot_store :: "available_slot list"
  stress_analysis :: stress_analysis_rec
  task_analysis :: task_analysis_rec
  insights :: insights_rec
  ai_metadata :: ai_metadata_rec

subsection \<open>Strings\<close>

text \<open>Numbers interpolated into template strings: the decimal rendering of an integer.\<close>

fun show_nat :: "nat \<Rightarrow> string" where
  "show_nat n =
     (if n < 10 then [''0123456789'' ! n]
      else show_nat (n div 10) @ [''0123456789'' ! (n mod 10)])"

declare show_nat.simps [simp del]

definition show_int :: "int \<Rightarrow> string" where
  "show_int i = (if i < 0 then CHR ''-'' # show_nat (nat (- i)) else show_nat (nat i))"

text \<open>\<open>toLowerCase\<close> on the ASCII letters (other letters are left as they are), and
  \<open>String.prototype.includes\<close>.\<close>

definition toLowerChar :: "char \<Rightarrow> char" where
  "toLowerChar c =
     (let n = (of_char c :: nat) in if 65 \<le> n \<and> n \<le> 90 then char_of (n + 32) else c)"

definition toLowerCase :: "string \<Rightarrow> string" where
  "toLowerCase s = map toLowerChar s"

fun includes_str :: "string \<Rightarrow> string \<Rightarrow> bool" where
  "includes_str [] w = (w = [])"
| "includes_str (c # cs) w = (take (length w) (c # cs) = w \<or> includes_str cs w)"

subsection \<open>Scoring\<close>

text \<open>
  \<open>new Date(task.deadline)\<close> is the built-in date parser: the parameter \<open>parseDate\<close>
  gives the time value in milliseconds of a string, or \<open>None\<close> for an Invalid Date
  (time value \<open>NaN\<close>). The constructor does not throw on a string it cannot read, so
  the \<open>catch\<close> branch of the source is never entered. \<open>new Date()\<close> reads the clock:
  \<open>clock n\<close> is the \<open>n\<close>-th reading made during a call, and every function that reads
  the clock returns the number of readings made so far.

  A comparison with \<open>NaN\<close> is false: \<open>le_num\<close> is \<open>\<le>\<close> on a number that may be \<open>NaN\<close>.
  The hours are an exact quotient here; for a whole number of milliseconds the rounded
  quotient of the source compares with 6, 24, 48 and 168 in the same way.
\<close>

type_synonym clock = "nat \<Rightarrow> int"

definition le_num :: "rat option \<Rightarrow> rat \<Rightarrow> bool" where
  "le_num x c = (case x of None \<Rightarrow> False | Some v \<Rightarrow> v \<le> c)"

definition hoursUntil :: "int option \<Rightarrow> int \<Rightarrow> rat option" where
  "hoursUntil dl now = map_option (\<lambda>d. of_int (d - now) / (1000 * 60 * 60)) dl"

definition calculateDeadlineUrgency ::
  "(string \<Rightarrow> int option) \<Rightarrow> clock \<Rightarrow> nat \<Rightarrow> 'a task_scheme \<Rightarrow> rat \<times> nat" where
  "calculateDeadlineUrgency parseDate clk n t =
     (case deadline t of
        None \<Rightarrow> (2/10, n)
      | Some d \<Rightarrow>
          if d = [] then (2/10, n)
          else
            (let h = hoursUntil (parseDate d) (clk n) in
             (if le_num h 6 then 1
              else if le_num h 24 then 9/10
              else if le_num h 48 then 7/10
              else if le_num h 168 then 5/10
              else 3/10, Suc n)))"

text \<open>\<open>priorityMap[priority] || 0.6\<close>: a priority that is not a key of the map gives 0.6
  (the names of \<open>Object.prototype\<close> members are not considered).\<close>

definition getImportanceScore :: "string \<Rightarrow> rat" where
  "getImportanceScore p =
     (if p = ''high'' then 1 else if p = ''medium'' then 6/10
      else if p = ''low'' then 3/10 else 6/10)"

definition complexWords :: "string list" where
  "complexWords = [''analysis'', ''research'', ''development'', ''complex'', ''detailed'']"

definition simpleWords :: "string list" where
  "simpleWords = [''update'', ''check'', ''review'', ''simple'', ''quick'']"

definition assessComplexity :: "string \<Rightarrow> rat" where
  "assessComplexity ttl =
     (let score = 5/10;
          score = (if list_ex (\<lambda>w. includes_str (toLowerCase ttl) w) complexWords
                   then score + 2/10 else score);
          score = (if list_ex (\<lambda>w. includes_str (toLowerCase ttl) w) simpleWords
                   then score - 2/10 else score)
      in max (1/10) (min 1 score))"

definition classifyTaskType :: "string \<Rightarrow> task_kind" where
  "classifyTaskType ttl =
     (let titleLower = toLowerCase ttl in
      if list_ex (\<lambda>w. includes_str titleLower w) [''code'', ''develop'', ''analysis''] then deep_work
      else if list_ex (\<lambda>w. includes_str titleLower w) [''design'', ''create'', ''brainstorm'']
        then creative
      else if list_ex (\<lambda>w. includes_str titleLower w) [''email'', ''meeting'', ''plan'']
        then administrative
      else routine)"

definition calculateStressCompatibility :: "'a task_scheme \<Rightarrow> int \<Rightarrow> rat" where
  "calculateStressCompatibility t stressLevel =
     (let complexity = assessComplexity (title t) in
      max (1/10) (1 - (complexity * of_int stressLevel / 10 * (7/10))))"

definition calculateFinalPriority ::
  "(string \<Rightarrow> int option) \<Rightarrow> clock \<Rightarrow> nat \<Rightarrow> 'a task_scheme \<Rightarrow> int \<Rightarrow> rat \<times> nat" where
  "calculateFinalPriority parseDate clk n t stressLevel =
     (let (urgency, n') = calculateDeadlineUrgency parseDate clk n t;
          importance = getImportanceScore (priority t);
          compatibility = calculateStressCompatibility t stressLevel
      in (urgency * (5/10) + importance * (3/10) + compatibility * (2/10), n'))"

definition getStressImpact :: "int \<Rightarrow> string" where
  "getStressImpact lvl =
     (if lvl \<ge> 8 then ''High stress significantly limits task capacity''
      else if lvl \<ge> 5 then ''Moderate stress affects task selection''
      else ''Low stress allows for optimal productivity'')"

definition getStressActions :: "int \<Rightarrow> string list" where
  "getStressActions lvl =
     (if lvl \<ge> 7 then [''simplify_tasks'', ''add_breaks'', ''postpone_non_urgent'']
      else if lvl \<ge> 4 then [''balance_tasks'', ''moderate_breaks'']
      else [''challenge_optimal'', ''minimal_breaks''])"

subsection \<open>The three allocation strategies\<close>

text \<open>\<open>task.analysis?.deadline_urgency || 0\<close>.\<close>

definition urgencyOf :: "analyzed_task \<Rightarrow> rat" where
  "urgencyOf t = (case analysis t of None \<Rightarrow> 0 | Some a \<Rightarrow> deadline_urgency a)"

text \<open>The item of the early return, for a call without tasks or without time slots.\<close>

definition noSlotsItem :: "analyzed_task \<Rightarrow> schedule_item" where
  "noSlotsItem t =
     \<lparr>task = t, time_block = None, allocated_duration = 0,
      completion_status = not_scheduled, scheduling_confidence = 0,
      item_deadline_urgency = urgencyOf t,
      item_notes = [''No time slots available'']\<rparr>"

definition makeAvailable :: "time_slot \<Rightarrow> available_slot" where
  "makeAvailable slot =
     \<lparr>start_time = start_time slot, end_time = end_time slot,
      duration_minutes = duration_minutes slot, is_available = is_available slot,
      label = label slot, slot_description = slot_description slot,
      remaining_time = duration_minutes slot, used = False\<rparr>"

text \<open>
  Strategy 1, the scan for the best fitting slot. The accumulator is
  \<open>(bestSlotIndex, bestFit)\<close>; \<open>None\<close> stands for the initial \<open>bestSlot = null\<close>,
  \<open>bestFit = Infinity\<close>.
\<close>

definition bestFitStep ::
  "int \<Rightarrow> (nat \<times> int) option \<Rightarrow> nat \<times> available_slot \<Rightarrow> (nat \<times> int) option" where
  "bestFitStep taskDuration best = (\<lambda>(index, slot).
     if \<not> used slot \<and> remaining_time slot \<ge> taskDuration then
       (let fit = remaining_time slot - taskDuration in
        case best of
          None \<Rightarrow> Some (index, fit)
        | Some (bestSlotIndex, bestFit) \<Rightarrow>
            if fit < bestFit then Some (index, fit) else best)
     else best)"

definition findBestFit :: "int \<Rightarrow> available_slot list \<Rightarrow> (nat \<times> int) option" where
  "findBestFit taskDuration availableSlots =
     foldl (bestFitStep taskDuration) None (enumerate 0 availableSlots)"

definition perfectFitItem :: "analyzed_task \<Rightarrow> nat \<Rightarrow> available_slot \<Rightarrow> schedule_item" where
  "perfectFitItem t bestSlotIndex bestSlot =
     \<lparr>task = t, time_block = Some bestSlotIndex,
      allocated_duration = estimated_duration t,
      completion_status = complete, scheduling_confidence = 9/10,
      item_deadline_urgency = urgencyOf t,
      item_notes = [''Perfect fit in '' @ show_int (duration_minutes bestSlot) @ ''-minute slot'']\<rparr>"

definition consumePerfect :: "int \<Rightarrow> available_slot \<Rightarrow> available_slot" where
  "consumePerfect taskDuration bestSlot =
     (if remaining_time bestSlot = taskDuration then bestSlot\<lparr>used := True\<rparr>
      else bestSlot\<lparr>remaining_time := remaining_time bestSlot - taskDuration\<rparr>)"

text \<open>
  The first loop is \<open>remainingTasks.forEach\<close> with a callback that splices the visited
  task out of \<open>remainingTasks\<close>. \<open>forEach\<close> fixes the number of indices to visit when
  it starts, visits index \<open>k\<close> only if the array still has it, and reads the element
  at that moment. In \<open>strategy1 n k\<close>, \<open>k\<close> is the index and \<open>n\<close> the number of
  indices still to visit. The tasks are distinct objects, so \<open>indexOf(task)\<close> is \<open>k\<close>.
\<close>

fun strategy1 ::
  "nat \<Rightarrow> nat \<Rightarrow> analyzed_task list \<Rightarrow> available_slot list \<Rightarrow> schedule_item list
     \<Rightarrow> analyzed_task list \<times> available_slot list \<times> schedule_item list" where
  "strategy1 0 k remainingTasks availableSlots schedule =
     (remainingTasks, availableSlots, schedule)"
| "strategy1 (Suc n) k remainingTasks availableSlots schedule =
     (if k < length remainingTasks then
        (let t = remainingTasks ! k; taskDuration = estimated_duration t in
         case findBestFit taskDuration availableSlots of
           None \<Rightarrow> strategy1 n (Suc k) remainingTasks availableSlots schedule
         | Some (bestSlotIndex, bestFit) \<Rightarrow>
             (let bestSlot = availableSlots ! bestSlotIndex in
              strategy1 n (Suc k)
                (take k remainingTasks @ drop (Suc k) remainingTasks)
                (availableSlots[bestSlotIndex := consumePerfect taskDuration bestSlot])
                (schedule @ [perfectFitItem t bestSlotIndex bestSlot])))
      else strategy1 n (Suc k) remainingTasks availableSlots schedule)"

text \<open>
  Strategy 2, the scan for the slot with the most remaining time. The accumulator is
  \<open>(bestSlotIndex, maxAvailableTime)\<close>.
\<close>

definition largestStep ::
  "nat option \<times> int \<Rightarrow> nat \<times> available_slot \<Rightarrow> nat option \<times> int" where
  "largestStep = (\<lambda>(bestSlotIndex, maxAvailableTime) (index, slot).
     if \<not> used slot \<and> remaining_time slot > maxAvailableTime \<and> remaining_time slot \<ge> 15
     then (Some index, remaining_time slot)
     else (bestSlotIndex, maxAvailableTime))"

definition findLargest :: "available_slot list \<Rightarrow> nat option \<times> int" where
  "findLargest availableSlots = foldl largestStep (None, 0) (enumerate 0 availableSlots)"

definition partialItem :: "bool \<Rightarrow> analyzed_task \<Rightarrow> nat \<Rightarrow> int \<Rightarrow> schedule_item" where
  "partialItem isScaled t bestSlotIndex maxAvailableTime =
     (let taskDuration = estimated_duration t;
          allocatedTime = min taskDuration maxAvailableTime;
          isPartial = allocatedTime < taskDuration
      in \<lparr>task = t\<lparr>title := (if isPartial then title t @ '' (Partial)'' else title t)\<rparr>,
          time_block = Some bestSlotIndex,
          allocated_duration = allocatedTime,
          completion_status =
            (if isPartial then partial else if isScaled then scaled else complete),
          scheduling_confidence = (if isPartial then 6/10 else 8/10),
          item_deadline_urgency = urgencyOf t,
          item_notes =
            [if isPartial
             then ''Partial scheduling: '' @ show_int allocatedTime @ '' of ''
                    @ show_int taskDuration @ '' minutes''
             else ''Scheduled in available '' @ show_int allocatedTime @ ''-minute slot'']\<rparr>)"

definition unscheduledItem :: "analyzed_task \<Rightarrow> schedule_item" where
  "unscheduledItem t =
     \<lparr>task = t, time_block = None, allocated_duration = 0,
      completion_status = not_scheduled, scheduling_confidence = 0,
      item_deadline_urgency = urgencyOf t,
      item_notes =
        [''No available time slots remaining - consider adding more time blocks'']\<rparr>"

definition consumePartial :: "int \<Rightarrow> available_slot \<Rightarrow> available_slot" where
  "consumePartial allocatedTime slot =
     (let slot' = slot\<lparr>remaining_time := remaining_time slot - allocatedTime\<rparr>
      in if remaining_time slot' < 15 then slot'\<lparr>used := True\<rparr> else slot')"

definition strategy2Step ::
  "bool \<Rightarrow> available_slot list \<times> schedule_item list \<Rightarrow> analyzed_task
     \<Rightarrow> available_slot list \<times> schedule_item list" where
  "strategy2Step isScaled = (\<lambda>(availableSlots, schedule) t.
     case findLargest availableSlots of
       (Some bestSlotIndex, maxAvailableTime) \<Rightarrow>
         if maxAvailableTime > 0 then
           (let allocatedTime = min (estimated_duration t) maxAvailableTime in
            (availableSlots[bestSlotIndex :=
               consumePartial allocatedTime (availableSlots ! bestSlotIndex)],
             schedule @ [partialItem isScaled t bestSlotIndex maxAvailableTime]))
         else (availableSlots, schedule @ [unscheduledItem t])
     | (None, maxAvailableTime) \<Rightarrow> (availableSlots, schedule @ [unscheduledItem t]))"

definition strategy2 ::
  "bool \<Rightarrow> analyzed_task list \<Rightarrow> available_slot list \<times> schedule_item list
     \<Rightarrow> available_slot list \<times> schedule_item list" where
  "strategy2 isScaled remainingTasks st = foldl (strategy2Step isScaled) st remainingTasks"

text \<open>
  Strategy 3. \<open>unscheduledHighPriority\<close> is computed once, before the loop; its
  members are the schedule's own item objects, here their indices.
  \<open>availableSlots.find\<close> returns the first slot that satisfies the test.
\<close>

fun findIndex :: "('a \<Rightarrow> bool) \<Rightarrow> 'a list \<Rightarrow> nat option" where
  "findIndex P [] = None"
| "findIndex P (x # xs) = (if P x then Some 0 else map_option Suc (findIndex P xs))"

definition rescuable :: "schedule_item \<Rightarrow> bool" where
  "rescuable item \<longleftrightarrow>
     completion_status item = not_scheduled \<and>
     (priority (task item) = ''high'' \<or> item_deadline_urgency item > 8/10)"

definition unscheduledHighPriority :: "schedule_item list \<Rightarrow> nat list" where
  "unscheduledHighPriority schedule =
     filter (\<lambda>i. rescuable (schedule ! i)) [0..<length schedule]"

definition hasMinimalTime :: "available_slot \<Rightarrow> bool" where
  "hasMinimalTime slot \<longleftrightarrow> \<not> used slot \<and> remaining_time slot \<ge> 10"

definition emergencyItem :: "schedule_item \<Rightarrow> nat \<Rightarrow> int \<Rightarrow> schedule_item" where
  "emergencyItem item j allocatedTime =
     item\<lparr>time_block := Some j,
          allocated_duration := allocatedTime,
          completion_status :=
            (if allocatedTime < estimated_duration (task item) then partial else scaled),
          scheduling_confidence := 5/10,
          item_notes := [''Emergency scheduling: '' @ show_int allocatedTime
                           @ '' minutes for high-priority task'']\<rparr>"

definition consumeEmergency :: "int \<Rightarrow> available_slot \<Rightarrow> available_slot" where
  "consumeEmergency allocatedTime slot =
     (let slot' = slot\<lparr>remaining_time := remaining_time slot - allocatedTime\<rparr>
      in if remaining_time slot' < 10 then slot'\<lparr>used := True\<rparr> else slot')"

definition strategy3Step ::
  "available_slot list \<times> schedule_item list \<Rightarrow> nat
     \<Rightarrow> available_slot list \<times> schedule_item list" where
  "strategy3Step = (\<lambda>(availableSlots, schedule) i.
     case findIndex hasMinimalTime availableSlots of
       None \<Rightarrow> (availableSlots, schedule)
     | Some j \<Rightarrow>
         (let item = schedule ! i;
              smallestSlot = availableSlots ! j;
              allocatedTime = min (estimated_duration (task item)) (remaining_time smallestSlot)
          in (availableSlots[j := consumeEmergency allocatedTime smallestSlot],
              schedule[i := emergencyItem item j allocatedTime])))"

definition strategy3 ::
  "available_slot list \<times> schedule_item list \<Rightarrow> available_slot list \<times> schedule_item list" where
  "strategy3 st = foldl strategy3Step st (unscheduledHighPriority (snd st))"

subsection \<open>The scheduler\<close>

text \<open>
  \<open>createOptimizedScheduleFixed\<close> returns the schedule; the model returns the final
  \<open>availableSlots\<close> with it (empty on the early return, which creates none).
  \<open>stressLevel\<close> and \<open>mood\<close> are parameters the source does not read.
\<close>

definition createOptimizedScheduleFixed ::
  "analyzed_task list \<Rightarrow> time_slot list \<Rightarrow> int \<Rightarrow> string
     \<Rightarrow> available_slot list \<times> schedule_item list" where
  "createOptimizedScheduleFixed tasks timeSlots stressLevel mood =
     (if tasks = [] \<or> timeSlots = [] then ([], map noSlotsItem tasks)
      else
        (let availableSlots = map makeAvailable timeSlots;
             totalTaskTime = sum_list (map estimated_duration tasks);
             totalAvailableTime = sum_list (map duration_minutes timeSlots);
             (remainingTasks, availableSlots, schedule) =
                strategy1 (length tasks) 0 tasks availableSlots [];
             st = strategy2 (totalTaskTime > totalAvailableTime) remainingTasks
                    (availableSlots, schedule)
         in strategy3 st))"

text \<open>The slots and the schedule when the second strategy has run, on inputs that pass the
  early return.\<close>

definition afterStrategy2 ::
  "analyzed_task list \<Rightarrow> time_slot list \<Rightarrow> available_slot list \<times> schedule_item list" where
  "afterStrategy2 tasks timeSlots =
     (let availableSlots = map makeAvailable timeSlots;
          totalTaskTime = sum_list (map estimated_duration tasks);
          totalAvailableTime = sum_list (map duration_minutes timeSlots);
          (remainingTasks, availableSlots, schedule) =
             strategy1 (length tasks) 0 tasks availableSlots []
      in strategy2 (totalTaskTime > totalAvailableTime) remainingTasks
           (availableSlots, schedule))"

subsection \<open>The scheduling call and its summary\<close>

definition generateRecommendations :: "schedule_item list \<Rightarrow> int \<Rightarrow> string list" where
  "generateRecommendations schedule stressLevel =
     (let unscheduled = length (filter (\<lambda>item. completion_status item = not_scheduled) schedule);
          partialCount = length (filter (\<lambda>item. completion_status item = partial) schedule);
          scheduled = length (filter (\<lambda>item. allocated_duration item > 0) schedule);
          recs =
            (if scheduled = length schedule then [''All tasks successfully scheduled!'']
             else
               (if unscheduled > 0
                then [show_nat unscheduled
                        @ '' tasks need additional time slots - consider extending your schedule'']
                else [])
               @ (if partialCount > 0
                  then [show_nat partialCount
                          @ '' tasks are partially scheduled - plan follow-up sessions'']
                  else []))
      in recs @ (if stressLevel \<ge> 7
                 then [''High stress detected - take breaks between tasks''] else []))"

text \<open>
  \<open>tasks.map\<close> builds the analysed tasks from left to right; a task with a deadline
  reads the clock twice, once for \<open>deadline_urgency\<close> and once for \<open>final_priority\<close>.
\<close>

definition analyzeTask ::
  "(string \<Rightarrow> int option) \<Rightarrow> clock \<Rightarrow> int \<Rightarrow> nat \<Rightarrow> task \<Rightarrow> analyzed_task \<times> nat" where
  "analyzeTask parseDate clk stressLevel n t =
     (let (urgency, n1) = calculateDeadlineUrgency parseDate clk n t;
          (final, n2) = calculateFinalPriority parseDate clk n1 t stressLevel
      in (\<lparr>task_id = task_id t, title = title t, description = description t,
           estimated_duration = estimated_duration t, priority = priority t,
           category = category t, deadline = deadline t, is_flexible = is_flexible t,
           analysis = Some
             \<lparr>deadline_urgency = urgency,
              importance_score = getImportanceScore (priority t),
              complexity_score = assessComplexity (title t),
              task_type = classifyTaskType (title t),
              ai_confidence = 85/100,
              stress_compatibility = calculateStressCompatibility t stressLevel,
              final_priority = final\<rparr>\<rparr>, n2))"

fun analyzeTasks ::
  "(string \<Rightarrow> int option) \<Rightarrow> clock \<Rightarrow> int \<Rightarrow> nat \<Rightarrow> task list
     \<Rightarrow> analyzed_task list \<times> nat" where
  "analyzeTasks parseDate clk stressLevel n [] = ([], n)"
| "analyzeTasks parseDate clk stressLevel n (t # ts) =
     (let (a, n1) = analyzeTask parseDate clk stressLevel n t;
          (as, n2) = analyzeTasks parseDate clk stressLevel n1 ts
      in (a # as, n2))"

text \<open>
  \<open>analyzedTasks.sort((a, b) => b.analysis.final_priority - a.analysis.final_priority)\<close>
  is a stable sort by descending final priority: \<open>sort_key\<close> on the negated priority.
  Every analysed task carries its analysis when it is sorted.
\<close>

definition finalPriorityOf :: "analyzed_task \<Rightarrow> rat" where
  "finalPriorityOf a = (case analysis a of None \<Rightarrow> 0 | Some x \<Rightarrow> final_priority x)"

definition sortByPriority :: "analyzed_task list \<Rightarrow> analyzed_task list" where
  "sortByPriority analyzedTasks = sort_key (\<lambda>a. - finalPriorityOf a) analyzedTasks"

text \<open>\<open>generated_at\<close> is the time value of the last clock reading (the source renders it
  as an ISO string).\<close>

definition processScheduleLocally ::
  "(string \<Rightarrow> int option) \<Rightarrow> clock \<Rightarrow> task list \<Rightarrow> time_slot list \<Rightarrow> int \<Rightarrow> string
     \<Rightarrow> schedule_result" where
  "processScheduleLocally parseDate clk tasks timeSlots stressLevel mood =
     (let (analyzedTasks, n) = analyzeTasks parseDate clk stressLevel 0 tasks;
          analyzedTasks = sortByPriority analyzedTasks;
          (slots, schedule) =
             createOptimizedScheduleFixed analyzedTasks timeSlots stressLevel mood
      in \<lparr>optimized_schedule = schedule,
          slot_store = slots,
          stress_analysis =
            \<lparr>level = stressLevel, impact = getStressImpact stressLevel,
             recommended_actions = getStressActions stressLevel\<rparr>,
          task_analysis =
            \<lparr>total_tasks = length tasks,
             scheduled_tasks = length (filter (\<lambda>item. allocated_duration item > 0) schedule)\<rparr>,
          insights =
            \<lparr>scheduling_summary =
               \<lparr>total_work_hours =
                  of_int (foldl (\<lambda>total item. total + allocated_duration item) 0 schedule) / 60,
                average_scheduling_confidence = 85/100\<rparr>,
             mood_optimization = ''Schedule optimized for '' @ mood @ '' mood state'',
             recommendations = generateRecommendations schedule stressLevel\<rparr>,
          ai_metadata =
            \<lparr>ai_enabled = True, analysis_method = ''Local AI Agent - Fixed'',
             generated_at = clk n\<rparr>\<rparr>)"

subsection \<open>The caller's side: slot durations and input validation\<close>

text \<open>
  \<open>StressCoachApp.calculateSlotDuration\<close>: the minutes between two parsed instants,
  rounded as \<open>Math.round\<close> does and clamped at 0; \<open>None\<close> is \<open>NaN\<close>.
\<close>

definition calculateSlotDuration ::
  "(string \<Rightarrow> int option) \<Rightarrow> string \<Rightarrow> string \<Rightarrow> int option" where
  "calculateSlotDuration parseDate startTime endTime =
     (case (parseDate startTime, parseDate endTime) of
        (Some start, Some end') \<Rightarrow>
          Some (max 0 (\<lfloor>(of_int (end' - start) :: rat) / (1000 * 60) + 1/2\<rfloor>))
      | _ \<Rightarrow> None)"

text \<open>
  \<open>StressCoachApp.validateInputs\<close> returns whether the inputs may be scheduled, and
  shows a message when they may not; the model returns the messages shown.
\<close>

definition validateInputs :: "task list \<Rightarrow> time_slot list \<Rightarrow> bool \<times> string list" where
  "validateInputs tasks timeSlots =
     (if tasks = [] then
        (False, [''Please enter at least one task. Format: Task Title | Duration(min) | Priority | Deadline''])
      else if timeSlots = [] then
        (False, [''Please enter at least one time slot in format \"09:00-11:00 Morning work\"''])
      else (True, []))"

text \<open>
  \<open>StressCoachApp.analyzeAndSchedule\<close>, from the parsed tasks and time slots on. What
  the method does is modelled as the list of its effects, in order: the messages it
  shows, the loading indicator, the request to the remote service, the call of the local
  agent and the display of a result. The answer of the remote service is a parameter:
  \<open>Some result\<close> when the response is ok, \<open>None\<close> when the request fails or the response is
  not ok, which is when the source falls back to the local agent. The display is taken
  not to throw, so the outer \<open>catch\<close> is not entered.
\<close>

datatype ui_event =
    ShowMessage string
  | ShowLoading
  | CallApi
  | CallLocalAgent
  | DisplayResults schedule_result
  | HideLoading

definition analyzeAndSchedule ::
  "(string \<Rightarrow> int option) \<Rightarrow> clock \<Rightarrow> schedule_result option \<Rightarrow> task list \<Rightarrow> time_slot list
     \<Rightarrow> int \<Rightarrow> string \<Rightarrow> ui_event list" where
  "analyzeAndSchedule parseDate clk apiAnswer tasks timeSlots stressLevel mood =
     (let (valid, messages) = validateInputs tasks timeSlots in
      if \<not> valid then map ShowMessage messages
      else
        map ShowMessage messages @ [ShowLoading, CallApi]
        @ (case apiAnswer of
             Some result \<Rightarrow> [DisplayResults result]
           | None \<Rightarrow>
               [CallLocalAgent,
                DisplayResults
                  (processScheduleLocally parseDate clk tasks timeSlots stressLevel mood)])
        @ [ShowMessage ''AI schedule generated successfully!'', HideLoading])"

subsection \<open>Notions used to state the properties\<close>


text \<open>The id of the task that an item schedules.\<close>

definition itemTaskId :: "schedule_item \<Rightarrow> string" where
  "itemTaskId item = task_id (task item)"

text \<open>The arithmetic mean of the confidences of a schedule's items.\<close>

definition meanConfidence :: "schedule_item list \<Rightarrow> rat" where
  "meanConfidence schedule =
     sum_list (map scheduling_confidence schedule) / of_nat (length schedule)"

text \<open>A task has a deadline when \<open>task.deadline\<close> is truthy: present and not empty.\<close>

definition hasDeadline :: "task \<Rightarrow> bool" where
  "hasDeadline t \<longleftrightarrow> (case deadline t of None \<Rightarrow> False | Some d \<Rightarrow> d \<noteq> [])"

text \<open>
  The state of the rescue loop when it reaches the item with index \<open>i\<close>: the rescuable
  items before it have had their turn.
\<close>

definition strategy3Before ::
  "nat \<Rightarrow> available_slot list \<times> schedule_item list
     \<Rightarrow> available_slot list \<times> schedule_item list" where
  "strategy3Before i st =
     foldl strategy3Step st (filter (\<lambda>k. rescuable (snd st ! k)) [0..<i])"


text \<open>
  How a status reads on an item: a partial item holds some minutes but fewer than its task
  asks for, and a scaled item holds exactly what its task asks for.
\<close>

definition statusFits :: "schedule_item \<Rightarrow> bool" where
  "statusFits item \<longleftrightarrow>
     (completion_status item = partial \<longrightarrow>
        0 < allocated_duration item \<and>
        allocated_duration item < estimated_duration (task item)) \<and>
     (completion_status item = scaled \<longrightarrow>
        allocated_duration item = estimated_duration (task item))"

subsection \<open>Example inputs\<close>

text \<open>A task as \<open>parseTasksInput\<close> builds it and a slot as \<open>parseTimeSlots\<close> builds it.\<close>

definition exampleTask :: "string \<Rightarrow> int \<Rightarrow> string \<Rightarrow> string option \<Rightarrow> task" where
  "exampleTask name minutes prio due =
     \<lparr>task_id = ''task_0_'' @ name, title = name, description = ''Task: '' @ name,
      estimated_duration = minutes, priority = prio, category = ''work'',
      deadline = due, is_flexible = True\<rparr>"

definition exampleSlot :: "int \<Rightarrow> time_slot" where
  "exampleSlot minutes =
     \<lparr>start_time = ''2025-01-01T09:00:00'', end_time = ''2025-01-01T10:00:00'',
      duration_minutes = minutes, is_available = True,
      label = ''Time slot 1'', slot_description = ''Time slot 1''\<rparr>"

text \<open>
  Date parsers and clocks: a parser that reads no string, a parser that reads one
  instant (ten hours after the epoch) and no other string, a clock that stands still,
  and a clock that advances by a millisecond with every reading.
\<close>

definition unreadableDates :: "string \<Rightarrow> int option" where
  "unreadableDates s = None"

definition tenOClockDates :: "string \<Rightarrow> int option" where
  "tenOClockDates s = (if s = ''1970-01-01T10:00:00Z'' then Some 36000000 else None)"

definition frozenClock :: "int \<Rightarrow> clock" where
  "frozenClock now n = now"

definition tickingClock :: clock where
  "tickingClock n = int n"

text \<open>
  A task without a deadline as \<open>processScheduleLocally\<close> analyses it at stress level 5,
  and a call at stress level 5 in a focused mood, with no readable deadline and the clock
  at 0.
\<close>

definition exampleAnalyzed :: "string \<Rightarrow> int \<Rightarrow> string \<Rightarrow> analyzed_task" where
  "exampleAnalyzed name minutes prio =
     fst (analyzeTask unreadableDates (frozenClock 0) 5 0 (exampleTask name minutes prio None))"

definition exampleCall :: "task list \<Rightarrow> time_slot list \<Rightarrow> schedule_result" where
  "exampleCall tasks timeSlots =
     processScheduleLocally unreadableDates (frozenClock 0) tasks timeSlots 5 ''focused''"

section \<open>Properties\<close>


subsection \<open>The scans\<close>

lemma findLargest_snoc:
  "findLargest (xs @ [x]) = largestStep (findLargest xs) (length xs, x)"
  by (simp add: findLargest_def enumerate_append_eq)

lemma findLargest_Some:
  "findLargest xs = (Some i, m) \<Longrightarrow>
     i < length xs \<and> \<not> used (xs ! i) \<and> remaining_time (xs ! i) = m \<and> 15 \<le> m"
proof (induction xs arbitrary: i m rule: rev_induct)
  case Nil
  then show ?case by (simp add: findLargest_def)
next
  case (snoc x xs)
  obtain b m0 where prev: "findLargest xs = (b, m0)" by (cases "findLargest xs")
  show ?case
  proof (cases "\<not> used x \<and> remaining_time x > m0 \<and> remaining_time x \<ge> 15")
    case True
    with snoc.prems prev show ?thesis
      by (auto simp: findLargest_snoc largestStep_def)
  next
    case False
    with snoc.prems prev have "findLargest xs = (Some i, m)"
      by (auto simp: findLargest_snoc largestStep_def)
    from snoc.IH[OF this] show ?thesis by (auto simp: nth_append)
  qed
qed

lemma findBestFit_snoc:
  "findBestFit d (xs @ [x]) = bestFitStep d (findBestFit d xs) (length xs, x)"
  by (simp add: findBestFit_def enumerate_append_eq)


lemma findIndex_Some:
  "findIndex P xs = Some j \<Longrightarrow> j < length xs \<and> P (xs ! j) \<and> (\<forall>k<j. \<not> P (xs ! k))"
proof (induction xs arbitrary: j)
  case Nil
  then show ?case by simp
next
  case (Cons x xs)
  show ?case
  proof (cases "P x")
    case True
    with Cons.prems show ?thesis by simp
  next
    case False
    with Cons.prems obtain j' where j': "findIndex P xs = Some j'" "j = Suc j'" by auto
    from Cons.IH[OF j'(1)] j'(2) False show ?thesis
      by (auto simp: nth_Cons split: nat.splits)
  qed
qed

lemma findIndex_None: "findIndex P xs = None \<longleftrightarrow> (\<forall>x\<in>set xs. \<not> P x)"
  by (induction xs) auto

subsection \<open>Invariants of the three strategies\<close>

text \<open>
  A property of the slots and the schedule that holds at the start and that every
  allocation step keeps, holds of the result. The lemmas below reduce an invariant of
  the scheduler to the steps of its three loops.
\<close>

lemma strategy1_invariant:
  assumes step: "\<And>slots sched t i fit. I slots sched \<Longrightarrow>
      findBestFit (estimated_duration t) slots = Some (i, fit) \<Longrightarrow>
      I (slots[i := consumePerfect (estimated_duration t) (slots ! i)])
        (sched @ [perfectFitItem t i (slots ! i)])"
  shows "I slots sched \<Longrightarrow> strategy1 n k rem slots sched = (rem', slots', sched')
           \<Longrightarrow> I slots' sched'"
proof (induction n arbitrary: k rem slots sched)
  case 0
  then show ?case by simp
next
  case (Suc n)
  show ?case
  proof (cases "k < length rem")
    case False
    with Suc.prems(2) have "strategy1 n (Suc k) rem slots sched = (rem', slots', sched')"
      by simp
    from Suc.IH[OF Suc.prems(1) this] show ?thesis .
  next
    case True
    show ?thesis
    proof (cases "findBestFit (estimated_duration (rem ! k)) slots")
      case None
      with True Suc.prems(2)
      have "strategy1 n (Suc k) rem slots sched = (rem', slots', sched')"
        by (simp add: Let_def)
      from Suc.IH[OF Suc.prems(1) this] show ?thesis .
    next
      case (Some a)
      obtain i fit where a: "a = (i, fit)" by (cases a)
      let ?t = "rem ! k"
      from Some a have found: "findBestFit (estimated_duration ?t) slots = Some (i, fit)"
        by simp
      from True Suc.prems(2) found
      have run: "strategy1 n (Suc k) (take k rem @ drop (Suc k) rem)
                   (slots[i := consumePerfect (estimated_duration ?t) (slots ! i)])
                   (sched @ [perfectFitItem ?t i (slots ! i)]) = (rem', slots', sched')"
        by (simp add: Let_def)
      from Suc.IH[OF step[OF Suc.prems(1) found] run] show ?thesis .
    qed
  qed
qed

lemma strategy2Step_invariant:
  assumes fit: "\<And>slots sched t i m. I slots sched \<Longrightarrow> findLargest slots = (Some i, m) \<Longrightarrow>
      0 < m \<Longrightarrow>
      I (slots[i := consumePartial (min (estimated_duration t) m) (slots ! i)])
        (sched @ [partialItem sc t i m])"
    and nofit: "\<And>slots sched t. I slots sched \<Longrightarrow> I slots (sched @ [unscheduledItem t])"
    and inv: "I slots sched"
    and run: "strategy2Step sc (slots, sched) t = (slots', sched')"
  shows "I slots' sched'"
proof (cases "findLargest slots")
  case (Pair b m)
  show ?thesis
  proof (cases b)
    case None
    with Pair run have "slots' = slots" "sched' = sched @ [unscheduledItem t]"
      by (auto simp: strategy2Step_def)
    with nofit[OF inv] show ?thesis by simp
  next
    case (Some i)
    show ?thesis
    proof (cases "0 < m")
      case True
      with Pair Some run
      have "slots' = slots[i := consumePartial (min (estimated_duration t) m) (slots ! i)]"
        "sched' = sched @ [partialItem sc t i m]"
        by (auto simp: strategy2Step_def Let_def)
      with fit[OF inv _ True, of i t] Pair Some show ?thesis by simp
    next
      case False
      with Pair Some run have "slots' = slots" "sched' = sched @ [unscheduledItem t]"
        by (auto simp: strategy2Step_def)
      with nofit[OF inv] show ?thesis by simp
    qed
  qed
qed

lemma strategy2_invariant:
  assumes fit: "\<And>slots sched t i m. I slots sched \<Longrightarrow> findLargest slots = (Some i, m) \<Longrightarrow>
      0 < m \<Longrightarrow>
      I (slots[i := consumePartial (min (estimated_duration t) m) (slots ! i)])
        (sched @ [partialItem sc t i m])"
    and nofit: "\<And>slots sched t. I slots sched \<Longrightarrow> I slots (sched @ [unscheduledItem t])"
  shows "I slots sched \<Longrightarrow> strategy2 sc rem (slots, sched) = (slots', sched')
           \<Longrightarrow> I slots' sched'"
proof (induction rem arbitrary: slots sched)
  case Nil
  then show ?case by (simp add: strategy2_def)
next
  case (Cons t rem)
  obtain slots1 sched1 where one: "strategy2Step sc (slots, sched) t = (slots1, sched1)"
    by (cases "strategy2Step sc (slots, sched) t")
  have inv1: "I slots1 sched1"
    by (rule strategy2Step_invariant[where I = I, OF fit nofit Cons.prems(1) one])
  from Cons.prems(2) one have "strategy2 sc rem (slots1, sched1) = (slots', sched')"
    by (simp add: strategy2_def)
  from Cons.IH[OF inv1 this] show ?case .
qed

lemma strategy3Step_length:
  "strategy3Step (slots, sched) i = (slots', sched') \<Longrightarrow>
     length slots' = length slots \<and> length sched' = length sched"
  by (cases "findIndex hasMinimalTime slots") (auto simp: strategy3Step_def Let_def)

lemma strategy3Step_other:
  "strategy3Step (slots, sched) i = (slots', sched') \<Longrightarrow> i' \<noteq> i \<Longrightarrow> sched' ! i' = sched ! i'"
  by (cases "findIndex hasMinimalTime slots") (auto simp: strategy3Step_def Let_def)

lemma strategy3_fold_invariant:
  assumes step: "\<And>slots sched i j. I slots sched \<Longrightarrow> i < length sched \<Longrightarrow>
      rescuable (sched ! i) \<Longrightarrow> findIndex hasMinimalTime slots = Some j \<Longrightarrow>
      I (slots[j := consumeEmergency
            (min (estimated_duration (task (sched ! i))) (remaining_time (slots ! j)))
            (slots ! j)])
        (sched[i := emergencyItem (sched ! i) j
            (min (estimated_duration (task (sched ! i))) (remaining_time (slots ! j)))])"
  shows "I slots sched \<Longrightarrow> distinct idxs \<Longrightarrow>
         \<forall>i\<in>set idxs. i < length sched \<and> rescuable (sched ! i) \<Longrightarrow>
         foldl strategy3Step (slots, sched) idxs = (slots', sched') \<Longrightarrow> I slots' sched'"
proof (induction idxs arbitrary: slots sched)
  case Nil
  then show ?case by simp
next
  case (Cons i idxs)
  obtain slots1 sched1 where one: "strategy3Step (slots, sched) i = (slots1, sched1)"
    by (cases "strategy3Step (slots, sched) i")
  from Cons.prems(3) have i: "i < length sched" "rescuable (sched ! i)" by auto
  have inv1: "I slots1 sched1"
  proof (cases "findIndex hasMinimalTime slots")
    case None
    with one Cons.prems(1) show ?thesis by (auto simp: strategy3Step_def)
  next
    case (Some j)
    with one step[OF Cons.prems(1) i Some] show ?thesis
      by (auto simp: strategy3Step_def Let_def)
  qed
  have rest: "\<forall>i'\<in>set idxs. i' < length sched1 \<and> rescuable (sched1 ! i')"
  proof
    fix i' assume i': "i' \<in> set idxs"
    with Cons.prems(2) have "i' \<noteq> i" by auto
    with strategy3Step_other[OF one] strategy3Step_length[OF one] Cons.prems(3) i'
    show "i' < length sched1 \<and> rescuable (sched1 ! i')" by auto
  qed
  from Cons.prems(2) have d: "distinct idxs" by simp
  from Cons.prems(4) one have "foldl strategy3Step (slots1, sched1) idxs = (slots', sched')"
    by simp
  from Cons.IH[OF inv1 d rest this] show ?case .
qed

lemma unscheduledHighPriority_props:
  "distinct (unscheduledHighPriority sched)"
  "\<forall>i\<in>set (unscheduledHighPriority sched). i < length sched \<and> rescuable (sched ! i)"
  by (auto simp: unscheduledHighPriority_def)

lemma strategy3_invariant:
  assumes step: "\<And>slots sched i j. I slots sched \<Longrightarrow> i < length sched \<Longrightarrow>
      rescuable (sched ! i) \<Longrightarrow> findIndex hasMinimalTime slots = Some j \<Longrightarrow>
      I (slots[j := consumeEmergency
            (min (estimated_duration (task (sched ! i))) (remaining_time (slots ! j)))
            (slots ! j)])
        (sched[i := emergencyItem (sched ! i) j
            (min (estimated_duration (task (sched ! i))) (remaining_time (slots ! j)))])"
    and inv: "I slots sched"
    and run: "strategy3 (slots, sched) = (slots', sched')"
  shows "I slots' sched'"
proof -
  from run have "foldl strategy3Step (slots, sched) (unscheduledHighPriority sched)
                   = (slots', sched')"
    by (simp add: strategy3_def)
  from strategy3_fold_invariant[where I = I, OF step inv unscheduledHighPriority_props this]
  show ?thesis .
qed

lemma strategies_invariant:
  assumes nonempty: "tasks \<noteq> []" "timeSlots \<noteq> []"
    and init: "I (map makeAvailable timeSlots) []"
    and s1: "\<And>slots sched t i fit. I slots sched \<Longrightarrow>
      findBestFit (estimated_duration t) slots = Some (i, fit) \<Longrightarrow>
      I (slots[i := consumePerfect (estimated_duration t) (slots ! i)])
        (sched @ [perfectFitItem t i (slots ! i)])"
    and s2: "\<And>slots sched t i m sc. I slots sched \<Longrightarrow> findLargest slots = (Some i, m) \<Longrightarrow>
      0 < m \<Longrightarrow>
      I (slots[i := consumePartial (min (estimated_duration t) m) (slots ! i)])
        (sched @ [partialItem sc t i m])"
    and s2n: "\<And>slots sched t. I slots sched \<Longrightarrow> I slots (sched @ [unscheduledItem t])"
    and s3: "\<And>slots sched i j. I slots sched \<Longrightarrow> i < length sched \<Longrightarrow>
      rescuable (sched ! i) \<Longrightarrow> findIndex hasMinimalTime slots = Some j \<Longrightarrow>
      I (slots[j := consumeEmergency
            (min (estimated_duration (task (sched ! i))) (remaining_time (slots ! j)))
            (slots ! j)])
        (sched[i := emergencyItem (sched ! i) j
            (min (estimated_duration (task (sched ! i))) (remaining_time (slots ! j)))])"
    and run: "createOptimizedScheduleFixed tasks timeSlots stressLevel mood = (slots', sched')"
  shows "I slots' sched'"
proof -
  obtain rem1 slots1 sched1
    where p1: "strategy1 (length tasks) 0 tasks (map makeAvailable timeSlots) []
                 = (rem1, slots1, sched1)"
    by (cases "strategy1 (length tasks) 0 tasks (map makeAvailable timeSlots) []") auto
  let ?sc = "sum_list (map estimated_duration tasks) > sum_list (map duration_minutes timeSlots)"
  obtain slots2 sched2
    where p2: "strategy2 ?sc rem1 (slots1, sched1) = (slots2, sched2)"
    by (cases "strategy2 ?sc rem1 (slots1, sched1)")
  from run nonempty p1 p2 have p3: "strategy3 (slots2, sched2) = (slots', sched')"
    by (simp add: createOptimizedScheduleFixed_def Let_def)
  have i1: "I slots1 sched1"
    by (rule strategy1_invariant[where I = I, OF s1 init p1])
  have i2: "I slots2 sched2"
    by (rule strategy2_invariant[where I = I, OF s2 s2n i1 p2])
  show ?thesis
    by (rule strategy3_invariant[where I = I, OF s3 i2 p3])
qed

lemma early_return:
  "tasks = [] \<or> timeSlots = [] \<Longrightarrow>
     createOptimizedScheduleFixed tasks timeSlots stressLevel mood = ([], map noSlotsItem tasks)"
  by (simp add: createOptimizedScheduleFixed_def)

lemma set_update_cases: "x \<in> set (xs[i := y]) \<Longrightarrow> x = y \<or> x \<in> set xs"
  using set_update_subset_insert[of xs i y] by auto

lemma item_confidence:
  "scheduling_confidence (noSlotsItem t) = 0"
  "scheduling_confidence (unscheduledItem t) = 0"
  "scheduling_confidence (perfectFitItem t i slot) = 9/10"
  "scheduling_confidence (partialItem sc t i m) = 6/10 \<or>
     scheduling_confidence (partialItem sc t i m) = 8/10"
  "scheduling_confidence (emergencyItem item j a) = 5/10"
  by (simp_all add: noSlotsItem_def unscheduledItem_def perfectFitItem_def partialItem_def
        emergencyItem_def Let_def)


subsection \<open>Confidence values\<close>

text \<open>
  Claim C10. Every item of a returned schedule has a scheduling confidence from the set
  0.0, 0.5, 0.6, 0.8, 0.9: each strategy assigns one of these constants.
\<close>

theorem confidence_values:
  assumes run: "createOptimizedScheduleFixed tasks timeSlots stressLevel mood = (slots, schedule)"
    and item: "item \<in> set schedule"
  shows "scheduling_confidence item \<in> {0, 5/10, 6/10, 8/10, 9/10}"
proof -
  define I :: "available_slot list \<Rightarrow> schedule_item list \<Rightarrow> bool"
    where "I = (\<lambda>sl sc. \<forall>it\<in>set sc. scheduling_confidence it \<in> {0, 5/10, 6/10, 8/10, 9/10})"
  have "I slots schedule"
  proof (cases "tasks = [] \<or> timeSlots = []")
    case True
    from early_return[OF True, of stressLevel mood] run
    have "schedule = map noSlotsItem tasks" by simp
    then show ?thesis by (auto simp: I_def item_confidence)
  next
    case False
    then have ne: "tasks \<noteq> []" "timeSlots \<noteq> []" by auto
    show ?thesis
    proof (rule strategies_invariant[where I = I, OF ne _ _ _ _ _ run])
      show "I (map makeAvailable timeSlots) []" by (simp add: I_def)
    next
      fix sl sc t i fit
      assume "I sl sc"
      then show "I (sl[i := consumePerfect (estimated_duration t) (sl ! i)])
                   (sc @ [perfectFitItem t i (sl ! i)])"
        by (auto simp: I_def item_confidence)
    next
      fix sl sc t i m b
      assume "I sl sc"
      with item_confidence(4)[of b t i m]
      show "I (sl[i := consumePartial (min (estimated_duration t) m) (sl ! i)])
              (sc @ [partialItem b t i m])"
        by (auto simp: I_def)
    next
      fix sl sc t
      assume "I sl sc"
      then show "I sl (sc @ [unscheduledItem t])" by (auto simp: I_def item_confidence)
    next
      fix sl sc i j
      assume "I sl sc"
      then show "I (sl[j := consumeEmergency
            (min (estimated_duration (task (sc ! i))) (remaining_time (sl ! j))) (sl ! j)])
        (sc[i := emergencyItem (sc ! i) j
            (min (estimated_duration (task (sc ! i))) (remaining_time (sl ! j)))])"
        by (auto simp: I_def item_confidence dest!: set_update_cases)
    qed
  qed
  with item show ?thesis by (simp add: I_def)
qed

theorem confidence_values_witness:
  "scheduling_confidence
     (snd (createOptimizedScheduleFixed
        [exampleAnalyzed ''A'' 30 ''medium'', exampleAnalyzed ''B'' 30 ''medium'']
        [exampleSlot 100] 5 ''focused'') ! 0) \<in> {0, 5/10, 6/10, 8/10, 9/10}"
proof -
  let ?r = "createOptimizedScheduleFixed
        [exampleAnalyzed ''A'' 30 ''medium'', exampleAnalyzed ''B'' 30 ''medium'']
        [exampleSlot 100] 5 ''focused''"
  have len: "0 < length (snd ?r)" by code_simp
  from confidence_values[OF prod.collapse[symmetric] nth_mem[OF len]] show ?thesis .
qed



subsection \<open>Conservation of slot capacity\<close>



lemma item_fields:
  "time_block (perfectFitItem t i slot) = Some i"
  "allocated_duration (perfectFitItem t i slot) = estimated_duration t"
  "completion_status (perfectFitItem t i slot) = complete"
  "time_block (partialItem sc t i m) = Some i"
  "allocated_duration (partialItem sc t i m) = min (estimated_duration t) m"
  "completion_status (partialItem sc t i m) \<noteq> not_scheduled"
  "time_block (unscheduledItem t) = None"
  "allocated_duration (unscheduledItem t) = 0"
  "completion_status (unscheduledItem t) = not_scheduled"
  "time_block (noSlotsItem t) = None"
  "allocated_duration (noSlotsItem t) = 0"
  "completion_status (noSlotsItem t) = not_scheduled"
  "time_block (emergencyItem item j a) = Some j"
  "allocated_duration (emergencyItem item j a) = a"
  "completion_status (emergencyItem item j a) \<noteq> not_scheduled"
  "task (emergencyItem item j a) = task item"
  by (simp_all add: perfectFitItem_def partialItem_def unscheduledItem_def noSlotsItem_def
        emergencyItem_def Let_def)









lemma calculateSlotDuration_nonneg:
  "calculateSlotDuration parseDate startTime endTime = Some minutes \<Longrightarrow> 0 \<le> minutes"
  by (auto simp: calculateSlotDuration_def split: option.splits)



subsection \<open>Status and allocated minutes\<close>

lemma statusFits_partialItem:
  assumes "15 \<le> m"
  shows "statusFits (partialItem sc t i m)"
  using assms by (auto simp: statusFits_def partialItem_def Let_def)

lemma statusFits_emergencyItem:
  assumes "10 \<le> r"
  shows "statusFits (emergencyItem item j (min (estimated_duration (task item)) r))"
  using assms by (auto simp: statusFits_def emergencyItem_def)

lemma statusFits_others:
  "statusFits (perfectFitItem t i slot)" "statusFits (unscheduledItem t)"
  "statusFits (noSlotsItem t)"
  by (simp_all add: statusFits_def item_fields)


text \<open>
  Claim C3, as amended. For every item of a returned schedule: if its status is partial,
  its allocated minutes are strictly between 0 and the task's estimated duration; if its
  status is scaled, its allocated minutes equal the task's estimated duration.
\<close>

theorem partial_and_scaled_allocation:
  assumes run: "createOptimizedScheduleFixed tasks timeSlots stressLevel mood = (slots, schedule)"
    and item: "item \<in> set schedule"
  shows "(completion_status item = partial \<longrightarrow>
            0 < allocated_duration item \<and>
            allocated_duration item < estimated_duration (task item)) \<and>
         (completion_status item = scaled \<longrightarrow>
            allocated_duration item = estimated_duration (task item))"
proof -
  define I :: "available_slot list \<Rightarrow> schedule_item list \<Rightarrow> bool"
    where "I = (\<lambda>sl sc. \<forall>it\<in>set sc. statusFits it)"
  have "I slots schedule"
  proof (cases "tasks = [] \<or> timeSlots = []")
    case True
    from early_return[OF True, of stressLevel mood] run
    have "schedule = map noSlotsItem tasks" by simp
    then show ?thesis by (auto simp: I_def statusFits_others)
  next
    case False
    then have ne: "tasks \<noteq> []" "timeSlots \<noteq> []" by auto
    show ?thesis
    proof (rule strategies_invariant[where I = I, OF ne _ _ _ _ _ run])
      show "I (map makeAvailable timeSlots) []" by (simp add: I_def)
    next
      fix sl sc i fit and t :: analyzed_task
      assume "I sl sc"
      then show "I (sl[i := consumePerfect (estimated_duration t) (sl ! i)])
                   (sc @ [perfectFitItem t i (sl ! i)])"
        by (auto simp: I_def statusFits_others)
    next
      fix sl sc i m b and t :: analyzed_task
      assume inv: "I sl sc" and found: "findLargest sl = (Some i, m)"
      from findLargest_Some[OF found] have "15 \<le> m" by simp
      from statusFits_partialItem[OF this] inv
      show "I (sl[i := consumePartial (min (estimated_duration t) m) (sl ! i)])
              (sc @ [partialItem b t i m])"
        by (auto simp: I_def)
    next
      fix sl sc t
      assume "I sl sc"
      then show "I sl (sc @ [unscheduledItem t])" by (auto simp: I_def statusFits_others)
    next
      fix sl sc i j
      assume inv: "I sl sc" and found: "findIndex hasMinimalTime sl = Some j"
      from findIndex_Some[OF found] have "10 \<le> remaining_time (sl ! j)"
        by (simp add: hasMinimalTime_def)
      from statusFits_emergencyItem[OF this] inv
      show "I (sl[j := consumeEmergency
            (min (estimated_duration (task (sc ! i))) (remaining_time (sl ! j))) (sl ! j)])
        (sc[i := emergencyItem (sc ! i) j
            (min (estimated_duration (task (sc ! i))) (remaining_time (sl ! j)))])"
        by (auto simp: I_def dest!: set_update_cases)
    qed
  qed
  with item show ?thesis by (simp add: I_def statusFits_def)
qed


theorem partial_and_scaled_allocation_witness:
  "completion_status
     (snd (createOptimizedScheduleFixed
        [exampleAnalyzed ''A'' 30 ''medium'', exampleAnalyzed ''B'' 30 ''medium'',
         exampleAnalyzed ''C'' 100 ''medium'']
        [exampleSlot 100] 5 ''focused'') ! 2) = partial
   \<and> 0 < allocated_duration
     (snd (createOptimizedScheduleFixed
        [exampleAnalyzed ''A'' 30 ''medium'', exampleAnalyzed ''B'' 30 ''medium'',
         exampleAnalyzed ''C'' 100 ''medium'']
        [exampleSlot 100] 5 ''focused'') ! 2)
   \<and> allocated_duration
     (snd (createOptimizedScheduleFixed
        [exampleAnalyzed ''A'' 30 ''medium'', exampleAnalyzed ''B'' 30 ''medium'',
         exampleAnalyzed ''C'' 100 ''medium'']
        [exampleSlot 100] 5 ''focused'') ! 2)
      < estimated_duration (task
     (snd (createOptimizedScheduleFixed
        [exampleAnalyzed ''A'' 30 ''medium'', exampleAnalyzed ''B'' 30 ''medium'',
         exampleAnalyzed ''C'' 100 ''medium'']
        [exampleSlot 100] 5 ''focused'') ! 2))"
proof -
  let ?r = "createOptimizedScheduleFixed
        [exampleAnalyzed ''A'' 30 ''medium'', exampleAnalyzed ''B'' 30 ''medium'',
         exampleAnalyzed ''C'' 100 ''medium'']
        [exampleSlot 100] 5 ''focused''"
  have len: "2 < length (snd ?r)" by code_simp
  have st: "completion_status (snd ?r ! 2) = partial" by code_simp
  from partial_and_scaled_allocation[OF prod.collapse[symmetric] nth_mem[OF len]] st
  show ?thesis by simp
qed

text \<open>
  Claim C3 as stated fails for the status scaled. Three tasks of 30, 30 and 100 minutes
  and one slot of 100 minutes: the second task is scheduled in full, 30 of 30 minutes,
  with the status scaled.
\<close>

theorem scaled_allocation_counterexample:
  "completion_status
     (optimized_schedule
        (exampleCall
           [exampleTask ''A'' 30 ''medium'' None, exampleTask ''B'' 30 ''medium'' None,
            exampleTask ''C'' 100 ''medium'' None]
           [exampleSlot 100]) ! 1) = scaled
   \<and> \<not> allocated_duration
     (optimized_schedule
        (exampleCall
           [exampleTask ''A'' 30 ''medium'' None, exampleTask ''B'' 30 ''medium'' None,
            exampleTask ''C'' 100 ''medium'' None]
           [exampleSlot 100]) ! 1)
       < estimated_duration (task
     (optimized_schedule
        (exampleCall
           [exampleTask ''A'' 30 ''medium'' None, exampleTask ''B'' 30 ''medium'' None,
            exampleTask ''C'' 100 ''medium'' None]
           [exampleSlot 100]) ! 1))"
  by code_simp


subsection \<open>One item per task\<close>

lemma item_task_id:
  "itemTaskId (perfectFitItem t i slot) = task_id t"
  "itemTaskId (partialItem sc t i m) = task_id t"
  "itemTaskId (unscheduledItem t) = task_id t"
  "itemTaskId (noSlotsItem t) = task_id t"
  "itemTaskId (emergencyItem item j a) = itemTaskId item"
  by (simp_all add: itemTaskId_def emergencyItem_def perfectFitItem_def partialItem_def unscheduledItem_def noSlotsItem_def
        Let_def)

lemma mset_without_nth:
  "k < length xs \<Longrightarrow> mset (take k xs @ drop (Suc k) xs) + {#xs ! k#} = mset xs"
proof -
  assume "k < length xs"
  then have "xs = take k xs @ xs ! k # drop (Suc k) xs" by (rule id_take_nth_drop)
  then have "mset xs = mset (take k xs @ xs ! k # drop (Suc k) xs)" by simp
  then show ?thesis by simp
qed

lemma strategy1_ids:
  "strategy1 n k rem slots sched = (rem', slots', sched') \<Longrightarrow>
     mset (map task_id rem') + mset (map itemTaskId sched')
       = mset (map task_id rem) + mset (map itemTaskId sched)"
proof (induction n arbitrary: k rem slots sched)
  case 0
  then show ?case by simp
next
  case (Suc n)
  show ?case
  proof (cases "k < length rem")
    case False
    with Suc.prems have "strategy1 n (Suc k) rem slots sched = (rem', slots', sched')"
      by simp
    from Suc.IH[OF this] show ?thesis .
  next
    case True
    show ?thesis
    proof (cases "findBestFit (estimated_duration (rem ! k)) slots")
      case None
      with True Suc.prems
      have "strategy1 n (Suc k) rem slots sched = (rem', slots', sched')"
        by (simp add: Let_def)
      from Suc.IH[OF this] show ?thesis .
    next
      case (Some a)
      obtain i fit where a: "a = (i, fit)" by (cases a)
      let ?t = "rem ! k"
      from True Suc.prems Some a
      have run: "strategy1 n (Suc k) (take k rem @ drop (Suc k) rem)
                   (slots[i := consumePerfect (estimated_duration ?t) (slots ! i)])
                   (sched @ [perfectFitItem ?t i (slots ! i)]) = (rem', slots', sched')"
        by (simp add: Let_def)
      from True have "k < length (map task_id rem)" by simp
      from mset_without_nth[OF this] True
      have split: "mset (map task_id (take k rem @ drop (Suc k) rem)) + {#task_id ?t#}
                     = mset (map task_id rem)"
        by (simp add: take_map drop_map)
      from Suc.IH[OF run]
      have "mset (map task_id rem') + mset (map itemTaskId sched')
              = mset (map task_id (take k rem @ drop (Suc k) rem)) + {#task_id ?t#}
                + mset (map itemTaskId sched)"
        by (simp add: item_task_id)
      with split show ?thesis by simp
    qed
  qed
qed

lemma strategy2Step_ids:
  "strategy2Step sc (slots, sched) t = (slots', sched') \<Longrightarrow>
     map itemTaskId sched' = map itemTaskId sched @ [task_id t]"
  by (cases "findLargest slots"; cases "fst (findLargest slots)")
     (auto simp: strategy2Step_def Let_def item_task_id split: if_splits)

lemma strategy2_ids:
  "strategy2 sc rem (slots, sched) = (slots', sched') \<Longrightarrow>
     map itemTaskId sched' = map itemTaskId sched @ map task_id rem"
proof (induction rem arbitrary: slots sched)
  case Nil
  then show ?case by (simp add: strategy2_def)
next
  case (Cons t rem)
  obtain slots1 sched1 where one: "strategy2Step sc (slots, sched) t = (slots1, sched1)"
    by (cases "strategy2Step sc (slots, sched) t")
  from Cons.prems one have "strategy2 sc rem (slots1, sched1) = (slots', sched')"
    by (simp add: strategy2_def)
  from Cons.IH[OF this] strategy2Step_ids[OF one] show ?case by simp
qed

lemma map_update_same: "f x = f (xs ! i) \<Longrightarrow> map f (xs[i := x]) = map f xs"
  by (cases "i < length xs")
     (simp_all add: map_update list_update_same_conv list_update_beyond)

lemma strategy3_ids:
  assumes run: "strategy3 (slots, sched) = (slots', sched')"
  shows "map itemTaskId sched' = map itemTaskId sched"
proof -
  define I :: "available_slot list \<Rightarrow> schedule_item list \<Rightarrow> bool"
    where "I = (\<lambda>sl sc. map itemTaskId sc = map itemTaskId sched)"
  have "I slots' sched'"
  proof (rule strategy3_invariant[where I = I, OF _ _ run])
    show "I slots sched" by (simp add: I_def)
  next
    fix sl sc i j
    assume "I sl sc" "i < length sc"
    then show "I (sl[j := consumeEmergency
            (min (estimated_duration (task (sc ! i))) (remaining_time (sl ! j))) (sl ! j)])
        (sc[i := emergencyItem (sc ! i) j
            (min (estimated_duration (task (sc ! i))) (remaining_time (sl ! j)))])"
      by (simp add: I_def map_update_same item_task_id)
  qed
  then show ?thesis by (simp add: I_def)
qed

lemma createOptimizedScheduleFixed_ids:
  assumes run: "createOptimizedScheduleFixed tasks timeSlots stressLevel mood = (slots, schedule)"
  shows "mset (map itemTaskId schedule) = mset (map task_id tasks)"
proof (cases "tasks = [] \<or> timeSlots = []")
  case True
  from early_return[OF True, of stressLevel mood] run
  have "schedule = map noSlotsItem tasks" by simp
  then show ?thesis by (simp add: item_task_id o_def)
next
  case False
  obtain rem1 slots1 sched1
    where p1: "strategy1 (length tasks) 0 tasks (map makeAvailable timeSlots) []
                 = (rem1, slots1, sched1)"
    by (cases "strategy1 (length tasks) 0 tasks (map makeAvailable timeSlots) []") auto
  let ?sc = "sum_list (map estimated_duration tasks) > sum_list (map duration_minutes timeSlots)"
  obtain slots2 sched2
    where p2: "strategy2 ?sc rem1 (slots1, sched1) = (slots2, sched2)"
    by (cases "strategy2 ?sc rem1 (slots1, sched1)")
  from run False p1 p2 have p3: "strategy3 (slots2, sched2) = (slots, schedule)"
    by (simp add: createOptimizedScheduleFixed_def Let_def)
  from strategy1_ids[OF p1]
  have "mset (map task_id rem1) + mset (map itemTaskId sched1) = mset (map task_id tasks)"
    by simp
  moreover from strategy2_ids[OF p2]
  have "mset (map itemTaskId sched2)
          = mset (map itemTaskId sched1) + mset (map task_id rem1)"
    by simp
  moreover note strategy3_ids[OF p3]
  ultimately show ?thesis by (simp add: add.commute)
qed

lemma analyzeTask_id: "task_id (fst (analyzeTask parseDate clk stressLevel n t)) = task_id t"
  by (simp add: analyzeTask_def Let_def split: prod.splits)

lemma analyzeTasks_ids:
  "map task_id (fst (analyzeTasks parseDate clk stressLevel n tasks)) = map task_id tasks"
proof (induction tasks arbitrary: n)
  case Nil
  then show ?case by simp
next
  case (Cons t tasks)
  obtain a n1 where a: "analyzeTask parseDate clk stressLevel n t = (a, n1)"
    by (cases "analyzeTask parseDate clk stressLevel n t")
  obtain as n2 where as: "analyzeTasks parseDate clk stressLevel n1 tasks = (as, n2)"
    by (cases "analyzeTasks parseDate clk stressLevel n1 tasks")
  from analyzeTask_id[of parseDate clk stressLevel n t] a have "task_id a = task_id t" by simp
  moreover from Cons.IH[of n1] as have "map task_id as = map task_id tasks" by simp
  ultimately show ?case using a as by simp
qed

lemma optimized_schedule_eq:
  "optimized_schedule (processScheduleLocally parseDate clk tasks timeSlots stressLevel mood)
     = snd (createOptimizedScheduleFixed
              (sortByPriority (fst (analyzeTasks parseDate clk stressLevel 0 tasks)))
              timeSlots stressLevel mood)"
  by (simp add: processScheduleLocally_def Let_def split: prod.splits)


text \<open>
  Claim C2, as amended. The schedule returned by a call has as many items as there are
  input tasks, and the task ids of its items are the task ids of the input, each as often
  as in the input: exactly one item per input task. The claim does not hold of the order.
\<close>

theorem one_item_per_task:
  "length (optimized_schedule
            (processScheduleLocally parseDate clk tasks timeSlots stressLevel mood))
     = length tasks
   \<and> mset (map itemTaskId
        (optimized_schedule
           (processScheduleLocally parseDate clk tasks timeSlots stressLevel mood)))
     = mset (map task_id tasks)"
proof -
  let ?sorted = "sortByPriority (fst (analyzeTasks parseDate clk stressLevel 0 tasks))"
  let ?sched = "optimized_schedule
                  (processScheduleLocally parseDate clk tasks timeSlots stressLevel mood)"
  have "mset (map task_id ?sorted)
          = mset (map task_id (fst (analyzeTasks parseDate clk stressLevel 0 tasks)))"
    by (simp add: sortByPriority_def)
  then have sorted: "mset (map task_id ?sorted) = mset (map task_id tasks)"
    by (simp add: analyzeTasks_ids)
  have "mset (map itemTaskId ?sched) = mset (map task_id ?sorted)"
    unfolding optimized_schedule_eq
    by (rule createOptimizedScheduleFixed_ids[OF prod.collapse[symmetric]])
  with sorted have ids: "mset (map itemTaskId ?sched) = mset (map task_id tasks)"
    by simp
  then have "size (mset (map itemTaskId ?sched)) = size (mset (map task_id tasks))"
    by simp
  then have "length ?sched = length tasks" by simp
  with ids show ?thesis by simp
qed


theorem one_item_per_task_witness:
  "length (optimized_schedule
             (exampleCall
                [exampleTask ''A'' 200 ''medium'' None, exampleTask ''B'' 30 ''medium'' None]
                [exampleSlot 100])) = 2
   \<and> mset (map itemTaskId
        (optimized_schedule
           (exampleCall
              [exampleTask ''A'' 200 ''medium'' None, exampleTask ''B'' 30 ''medium'' None]
              [exampleSlot 100])))
     = {#''task_0_A'', ''task_0_B''#}"
  using one_item_per_task[of unreadableDates "frozenClock 0"
          "[exampleTask ''A'' 200 ''medium'' None, exampleTask ''B'' 30 ''medium'' None]"
          "[exampleSlot 100]" 5 "''focused''"]
  by (simp add: exampleCall_def exampleTask_def)

text \<open>
  Claim C2 as stated asks for input order, and the items are not in input order. Two tasks of equal priority, the first of 200
  minutes and the second of 30, and one slot of 100 minutes: the second task is placed
  by the first strategy and comes first in the schedule.
\<close>

theorem input_order_counterexample:
  "map itemTaskId
     (optimized_schedule
        (exampleCall
           [exampleTask ''A'' 200 ''medium'' None, exampleTask ''B'' 30 ''medium'' None]
           [exampleSlot 100]))
   \<noteq> map task_id [exampleTask ''A'' 200 ''medium'' None, exampleTask ''B'' 30 ''medium'' None]"
  by code_simp


subsection \<open>The emergency pass\<close>

lemma upt_split_at: "i < n \<Longrightarrow> [0..<n] = [0..<i] @ i # [Suc i..<n]"
proof -
  assume i: "i < n"
  then have "[0..<n] = [0..<i] @ [i..<n]"
    using upt_add_eq_append[of 0 i "n - i"] by simp
  also from i have "[i..<n] = i # [Suc i..<n]" by (rule upt_conv_Cons)
  finally show ?thesis .
qed

lemma unscheduledHighPriority_split:
  assumes "i < length sched" "rescuable (sched ! i)"
  shows "unscheduledHighPriority sched =
           filter (\<lambda>k. rescuable (sched ! k)) [0..<i]
           @ i # filter (\<lambda>k. rescuable (sched ! k)) [Suc i..<length sched]"
  using assms by (simp add: unscheduledHighPriority_def upt_split_at[of i "length sched"])

lemma strategy3_fold_untouched:
  "\<forall>k\<in>set idxs. k \<noteq> i \<Longrightarrow> foldl strategy3Step (sl, sc) idxs = (sl', sc')
     \<Longrightarrow> sc' ! i = sc ! i \<and> length sc' = length sc"
proof (induction idxs arbitrary: sl sc)
  case Nil
  then show ?case by simp
next
  case (Cons k idxs)
  obtain sl1 sc1 where one: "strategy3Step (sl, sc) k = (sl1, sc1)"
    by (cases "strategy3Step (sl, sc) k")
  from Cons.prems(1) have k: "i \<noteq> k" and rest: "\<forall>k\<in>set idxs. k \<noteq> i" by auto
  from Cons.prems(2) one have "foldl strategy3Step (sl1, sc1) idxs = (sl', sc')" by simp
  from Cons.IH[OF rest this] strategy3Step_other[OF one k] strategy3Step_length[OF one]
  show ?case by simp
qed

lemma findIndex_exists:
  assumes "j < length xs" "P (xs ! j)"
  obtains j' where "findIndex P xs = Some j'"
proof (cases "findIndex P xs")
  case None
  then have "\<forall>x\<in>set xs. \<not> P x" by (simp add: findIndex_None)
  with assms show ?thesis by auto
next
  case (Some j')
  then show ?thesis by (rule that)
qed


text \<open>
  The rescue loop from any state: when it reaches a rescuable item and some slot is not
  used and has at least 10 minutes left, the item is given the first such slot, and no
  later turn changes the item.
\<close>

lemma strategy3_rescues:
  assumes i: "i < length schedule" "rescuable (schedule ! i)"
    and turn: "strategy3Before i (slots, schedule) = (slotsAt, scheduleAt)"
    and avail: "\<exists>j<length slotsAt. hasMinimalTime (slotsAt ! j)"
    and run: "strategy3 (slots, schedule) = (slots', schedule')"
  shows "\<exists>j<length slotsAt. hasMinimalTime (slotsAt ! j) \<and>
           time_block (schedule' ! i) = Some j \<and>
           allocated_duration (schedule' ! i)
             = min (estimated_duration (task (schedule ! i))) (remaining_time (slotsAt ! j)) \<and>
           scheduling_confidence (schedule' ! i) = 5/10 \<and>
           completion_status (schedule' ! i)
             = (if allocated_duration (schedule' ! i) < estimated_duration (task (schedule ! i))
                then partial else scaled)"
proof -
  let ?R = "\<lambda>k. rescuable (schedule ! k)"
  from turn have before: "foldl strategy3Step (slots, schedule) (filter ?R [0..<i])
                            = (slotsAt, scheduleAt)"
    by (simp add: strategy3Before_def)
  have "\<forall>k\<in>set (filter ?R [0..<i]). k \<noteq> i" by auto
  from strategy3_fold_untouched[OF this before]
  have same: "scheduleAt ! i = schedule ! i" and len: "length scheduleAt = length schedule"
    by simp_all
  from avail obtain j0 where "j0 < length slotsAt" "hasMinimalTime (slotsAt ! j0)" by auto
  then obtain j where found: "findIndex hasMinimalTime slotsAt = Some j"
    by (rule findIndex_exists)
  from findIndex_Some[OF found]
  have j: "j < length slotsAt" "hasMinimalTime (slotsAt ! j)" by auto
  let ?a = "min (estimated_duration (task (schedule ! i))) (remaining_time (slotsAt ! j))"
  let ?item = "emergencyItem (schedule ! i) j ?a"
  obtain slots1 sched1 where one: "strategy3Step (slotsAt, scheduleAt) i = (slots1, sched1)"
    by (cases "strategy3Step (slotsAt, scheduleAt) i")
  with found same have "sched1 = scheduleAt[i := ?item]"
    by (auto simp: strategy3Step_def Let_def)
  with i(1) len have at_turn: "sched1 ! i = ?item" by simp
  from run unscheduledHighPriority_split[OF i] before one
  have after: "foldl strategy3Step (slots1, sched1) (filter ?R [Suc i..<length schedule])
                 = (slots', schedule')"
    by (simp add: strategy3_def)
  have "\<forall>k\<in>set (filter ?R [Suc i..<length schedule]). k \<noteq> i" by auto
  from strategy3_fold_untouched[OF this after] at_turn
  have "schedule' ! i = ?item" by simp
  then have "time_block (schedule' ! i) = Some j"
    "allocated_duration (schedule' ! i) = ?a"
    "scheduling_confidence (schedule' ! i) = 5/10"
    "completion_status (schedule' ! i)
       = (if ?a < estimated_duration (task (schedule ! i)) then partial else scaled)"
    by (simp_all add: emergencyItem_def)
  with j show ?thesis by auto
qed

lemma createOptimizedScheduleFixed_phases:
  "tasks \<noteq> [] \<Longrightarrow> timeSlots \<noteq> [] \<Longrightarrow>
     createOptimizedScheduleFixed tasks timeSlots stressLevel mood
       = strategy3 (afterStrategy2 tasks timeSlots)"
  by (simp add: createOptimizedScheduleFixed_def afterStrategy2_def Let_def split_beta)

text \<open>
  Claim C7. Let an item be not scheduled after the second strategy, with a task of high
  priority or a deadline urgency above 0.8. If, when the rescue loop reaches it, some
  slot is not used and has at least 10 minutes left, then the item is given such a slot,
  with the minimum of the task's duration and the slot's remaining time as allocated
  minutes, confidence 0.5, and the status partial if it got less than the task asks for
  and scaled otherwise.
\<close>

theorem emergency_rescue:
  assumes nonempty: "tasks \<noteq> []" "timeSlots \<noteq> []"
    and phase2: "afterStrategy2 tasks timeSlots = (slots2, schedule2)"
    and i: "i < length schedule2" "rescuable (schedule2 ! i)"
    and turn: "strategy3Before i (slots2, schedule2) = (slotsAt, scheduleAt)"
    and avail: "\<exists>j<length slotsAt. hasMinimalTime (slotsAt ! j)"
    and run: "createOptimizedScheduleFixed tasks timeSlots stressLevel mood = (slots, schedule)"
  shows "\<exists>j<length slotsAt. hasMinimalTime (slotsAt ! j) \<and>
           time_block (schedule ! i) = Some j \<and>
           allocated_duration (schedule ! i)
             = min (estimated_duration (task (schedule2 ! i))) (remaining_time (slotsAt ! j)) \<and>
           scheduling_confidence (schedule ! i) = 5/10 \<and>
           completion_status (schedule ! i)
             = (if allocated_duration (schedule ! i) < estimated_duration (task (schedule2 ! i))
                then partial else scaled)"
proof -
  from run phase2 nonempty have "strategy3 (slots2, schedule2) = (slots, schedule)"
    by (simp add: createOptimizedScheduleFixed_phases)
  from strategy3_rescues[OF i turn avail this] show ?thesis .
qed

theorem emergency_rescue_witness:
  "time_block
     (snd (createOptimizedScheduleFixed [exampleAnalyzed ''A'' 20 ''high'']
             [exampleSlot 12] 5 ''focused'') ! 0) = Some 0
   \<and> allocated_duration
     (snd (createOptimizedScheduleFixed [exampleAnalyzed ''A'' 20 ''high'']
             [exampleSlot 12] 5 ''focused'') ! 0) = 12
   \<and> scheduling_confidence
     (snd (createOptimizedScheduleFixed [exampleAnalyzed ''A'' 20 ''high'']
             [exampleSlot 12] 5 ''focused'') ! 0) = 5/10
   \<and> completion_status
     (snd (createOptimizedScheduleFixed [exampleAnalyzed ''A'' 20 ''high'']
             [exampleSlot 12] 5 ''focused'') ! 0) = partial"
proof -
  let ?tasks = "[exampleAnalyzed ''A'' 20 ''high'']"
  let ?slots = "map makeAvailable [exampleSlot 12]"
  let ?sched = "[unscheduledItem (exampleAnalyzed ''A'' 20 ''high'')]"
  have ne: "?tasks \<noteq> []" "[exampleSlot 12] \<noteq> []" by simp_all
  have phase2: "afterStrategy2 ?tasks [exampleSlot 12] = (?slots, ?sched)" by code_simp
  have i: "0 < length ?sched" by simp
  have r: "rescuable (?sched ! 0)" by code_simp
  have turn: "strategy3Before 0 (?slots, ?sched) = (?slots, ?sched)"
    by (simp add: strategy3Before_def)
  have avail: "\<exists>j<length ?slots. hasMinimalTime (?slots ! j)"
    by (simp add: hasMinimalTime_def makeAvailable_def exampleSlot_def)
  have rem: "remaining_time (?slots ! 0) = 12"
    by (simp add: makeAvailable_def exampleSlot_def)
  have dur: "estimated_duration (task (?sched ! 0)) = 20" by code_simp
  from emergency_rescue[OF ne phase2 i r turn avail prod.collapse[symmetric]] rem dur
  show ?thesis by auto
qed

subsection \<open>The summary's average confidence\<close>

text \<open>
  Claim C5, as amended. The average scheduling confidence in the summary of a call is
  the constant 0.85, whatever the confidences of the returned items are.
\<close>

theorem average_confidence_constant:
  "average_scheduling_confidence
     (scheduling_summary
        (insights (processScheduleLocally parseDate clk tasks timeSlots stressLevel mood)))
   = 85/100"
  by (simp add: processScheduleLocally_def Let_def split: prod.splits)

theorem average_confidence_constant_witness:
  "average_scheduling_confidence
     (scheduling_summary
        (insights (exampleCall [exampleTask ''A'' 60 ''high'' None] [exampleSlot 90])))
   = 85/100"
  using average_confidence_constant[of unreadableDates "frozenClock 0"
          "[exampleTask ''A'' 60 ''high'' None]" "[exampleSlot 90]" 5 "''focused''"]
  by (simp add: exampleCall_def)

text \<open>
  Claim C5 as stated asks for the mean of the items' confidences, and the constant is not
  that mean: one task of 60 minutes and one slot of
  90 minutes give a single item of confidence 0.9.
\<close>

theorem average_confidence_counterexample:
  "average_scheduling_confidence
     (scheduling_summary
        (insights (exampleCall [exampleTask ''A'' 60 ''high'' None] [exampleSlot 90])))
   \<noteq> meanConfidence
       (optimized_schedule (exampleCall [exampleTask ''A'' 60 ''high'' None] [exampleSlot 90]))"
  by code_simp

subsection \<open>Calls without tasks or without slots\<close>

lemma slot_store_eq:
  "slot_store (processScheduleLocally parseDate clk tasks timeSlots stressLevel mood)
     = fst (createOptimizedScheduleFixed
              (sortByPriority (fst (analyzeTasks parseDate clk stressLevel 0 tasks)))
              timeSlots stressLevel mood)"
  by (simp add: processScheduleLocally_def Let_def split: prod.splits)

lemma analyzeTasks_length:
  "length (fst (analyzeTasks parseDate clk stressLevel n tasks)) = length tasks"
  using arg_cong[OF analyzeTasks_ids[of parseDate clk stressLevel n tasks], of length]
  by simp

text \<open>
  With valid inputs and no answer from the remote service, \<open>analyzeAndSchedule\<close> calls the
  local agent and displays its result; with no tasks or no slots it shows the message of
  \<open>validateInputs\<close> and does nothing else.
\<close>

lemma analyzeAndSchedule_falls_back:
  "analyzeAndSchedule unreadableDates (frozenClock 0) None
         [exampleTask ''A'' 60 ''high'' None] [exampleSlot 90] 5 ''focused''
       = [ShowLoading, CallApi, CallLocalAgent,
          DisplayResults (exampleCall [exampleTask ''A'' 60 ''high'' None] [exampleSlot 90]),
          ShowMessage ''AI schedule generated successfully!'', HideLoading]"
  by (simp add: analyzeAndSchedule_def validateInputs_def exampleCall_def exampleTask_def exampleSlot_def)

lemma analyzeAndSchedule_rejects:
  assumes "tasks = [] \<or> timeSlots = []"
  shows "analyzeAndSchedule parseDate clk apiAnswer tasks timeSlots stressLevel mood
           = map ShowMessage (snd (validateInputs tasks timeSlots))"
    and "\<exists>m. snd (validateInputs tasks timeSlots) = [m]"
  using assms by (auto simp: analyzeAndSchedule_def validateInputs_def)

text \<open>
  Claim C6, as amended. A call with no tasks or no slots allocates nothing and returns a
  schedule with one item per task, each not scheduled, without a slot, with 0 minutes,
  confidence 0.0 and the note that no time slots are available; with no tasks the
  schedule is empty. The scheduler raises no validation error. It is the caller's
  \<open>validateInputs\<close> that answers false for such inputs, and \<open>analyzeAndSchedule\<close> then
  shows one message and returns: it makes no request to the remote service, does not
  call the local agent and displays no result.
\<close>

theorem empty_input_schedule:
  assumes empty: "tasks = [] \<or> timeSlots = []"
  shows "length (optimized_schedule
                   (processScheduleLocally parseDate clk tasks timeSlots stressLevel mood))
           = length tasks
         \<and> (\<forall>item \<in> set (optimized_schedule
                   (processScheduleLocally parseDate clk tasks timeSlots stressLevel mood)).
               completion_status item = not_scheduled \<and> time_block item = None \<and>
               allocated_duration item = 0 \<and> scheduling_confidence item = 0 \<and>
               item_notes item = [''No time slots available''])
         \<and> fst (validateInputs tasks timeSlots) = False
         \<and> (\<exists>m. analyzeAndSchedule parseDate clk apiAnswer tasks timeSlots stressLevel mood
                  = [ShowMessage m])
         \<and> CallApi \<notin> set (analyzeAndSchedule parseDate clk apiAnswer tasks timeSlots
                              stressLevel mood)
         \<and> CallLocalAgent \<notin> set (analyzeAndSchedule parseDate clk apiAnswer tasks timeSlots
                                     stressLevel mood)
         \<and> (\<forall>r. DisplayResults r \<notin> set (analyzeAndSchedule parseDate clk apiAnswer tasks
                                           timeSlots stressLevel mood))"
proof -
  let ?sorted = "sortByPriority (fst (analyzeTasks parseDate clk stressLevel 0 tasks))"
  have len: "length ?sorted = length tasks"
    by (simp add: sortByPriority_def analyzeTasks_length)
  from empty have "?sorted = [] \<or> timeSlots = []"
    using len by auto
  from early_return[OF this, of stressLevel mood]
  have "optimized_schedule
          (processScheduleLocally parseDate clk tasks timeSlots stressLevel mood)
        = map noSlotsItem ?sorted"
    by (simp add: optimized_schedule_eq)
  then have engine: "length (optimized_schedule
                   (processScheduleLocally parseDate clk tasks timeSlots stressLevel mood))
           = length tasks
         \<and> (\<forall>item \<in> set (optimized_schedule
                   (processScheduleLocally parseDate clk tasks timeSlots stressLevel mood)).
               completion_status item = not_scheduled \<and> time_block item = None \<and>
               allocated_duration item = 0 \<and> scheduling_confidence item = 0 \<and>
               item_notes item = [''No time slots available''])"
    using len by (auto simp: noSlotsItem_def)
  from empty have invalid: "fst (validateInputs tasks timeSlots) = False"
    by (auto simp: validateInputs_def)
  from analyzeAndSchedule_rejects(1)[OF empty, of parseDate clk apiAnswer stressLevel mood]
    analyzeAndSchedule_rejects(2)[OF empty]
  obtain m where trace: "analyzeAndSchedule parseDate clk apiAnswer tasks timeSlots
                           stressLevel mood = [ShowMessage m]"
    by auto
  from engine invalid trace show ?thesis by simp
qed

theorem empty_input_schedule_witness:
  "completion_status (optimized_schedule (exampleCall [exampleTask ''A'' 60 ''high'' None] []) ! 0)
     = not_scheduled
   \<and> item_notes (optimized_schedule (exampleCall [exampleTask ''A'' 60 ''high'' None] []) ! 0)
     = [''No time slots available'']
   \<and> fst (validateInputs [exampleTask ''A'' 60 ''high'' None] []) = False
   \<and> CallLocalAgent \<notin> set (analyzeAndSchedule unreadableDates (frozenClock 0) None
                               [exampleTask ''A'' 60 ''high'' None] [] 5 ''focused'')"
proof -
  let ?tasks = "[exampleTask ''A'' 60 ''high'' None]"
  have empty: "?tasks = [] \<or> ([] :: time_slot list) = []" by simp
  note inst = empty_input_schedule[OF empty,
      of unreadableDates "frozenClock 0" 5 "''focused''" None]
  from inst have "0 < length (optimized_schedule (exampleCall ?tasks []))"
    by (simp add: exampleCall_def)
  then have "optimized_schedule (exampleCall ?tasks []) ! 0
               \<in> set (optimized_schedule (exampleCall ?tasks []))"
    by (rule nth_mem)
  with inst show ?thesis by (simp add: exampleCall_def)
qed

text \<open>
  Claim C6 as stated asks for a validation error and no schedule. One task and no slot:
  the scheduler returns a schedule, with the task not scheduled.
\<close>

theorem empty_slots_counterexample:
  "map completion_status
     (optimized_schedule (exampleCall [exampleTask ''A'' 60 ''high'' None] []))
     = [not_scheduled]"
  by code_simp

subsection \<open>Deadline urgency\<close>

text \<open>
  Without a deadline the urgency is 0.2, and for a deadline that the parser reads it is
  the stepped function of the hours until the deadline.
\<close>

lemma no_deadline_urgency:
  "deadline t = None \<or> deadline t = Some [] \<Longrightarrow>
     calculateDeadlineUrgency parseDate clk n t = (2/10, n)"
  by (auto simp: calculateDeadlineUrgency_def)

lemma deadline_urgency_steps:
  assumes "deadline t = Some d" "d \<noteq> []" "parseDate d = Some ms"
  shows "fst (calculateDeadlineUrgency parseDate clk n t) =
           (let h = (of_int (ms - clk n) :: rat) / 3600000 in
            if h \<le> 6 then 1 else if h \<le> 24 then 9/10 else if h \<le> 48 then 7/10
            else if h \<le> 168 then 5/10 else 3/10)"
  using assms by (simp add: calculateDeadlineUrgency_def hoursUntil_def le_num_def Let_def)

text \<open>
  Claim C8 asks for the urgency 0.2 when the deadline cannot be parsed. The source returns
  0.2 from a \<open>catch\<close> branch, but parsing does not throw: it yields an Invalid Date, every
  comparison of the chain is false, and the result is 0.3.
\<close>

theorem unparseable_deadline_urgency:
  assumes "deadline t = Some d" "d \<noteq> []" "parseDate d = None"
  shows "fst (calculateDeadlineUrgency parseDate clk n t) = 3/10"
  using assms by (simp add: calculateDeadlineUrgency_def hoursUntil_def le_num_def Let_def)

theorem unparseable_deadline_urgency_witness:
  "fst (calculateDeadlineUrgency unreadableDates (frozenClock 0) 0
          (exampleTask ''A'' 60 ''high'' (Some ''next friday''))) = 3/10"
proof -
  have d: "deadline (exampleTask ''A'' 60 ''high'' (Some ''next friday'')) = Some ''next friday''"
    by (simp add: exampleTask_def)
  have ne: "''next friday'' \<noteq> []" by simp
  have un: "unreadableDates ''next friday'' = None" by (simp add: unreadableDates_def)
  from unparseable_deadline_urgency[where parseDate = unreadableDates, OF d ne un]
  show ?thesis .
qed

subsection \<open>The perfect-fit pass\<close>

text \<open>
  What the scan finds is a best fit: an unused slot that holds the task, with the least
  leftover among such slots; and it finds one whenever there is one.
\<close>

lemma findBestFit_None:
  "findBestFit d xs = None \<longleftrightarrow> (\<forall>k<length xs. used (xs ! k) \<or> remaining_time (xs ! k) < d)"
proof (induction xs rule: rev_induct)
  case Nil
  then show ?case by (simp add: findBestFit_def)
next
  case (snoc x xs)
  show ?case
  proof (cases "\<not> used x \<and> d \<le> remaining_time x")
    case True
    then have "findBestFit d (xs @ [x]) \<noteq> None"
      by (auto simp: findBestFit_snoc bestFitStep_def Let_def split: option.splits)
    moreover from True have "\<not> (\<forall>k<length (xs @ [x]).
        used ((xs @ [x]) ! k) \<or> remaining_time ((xs @ [x]) ! k) < d)"
      by (auto intro!: exI[of _ "length xs"])
    ultimately show ?thesis by blast
  next
    case False
    then have "findBestFit d (xs @ [x]) = findBestFit d xs"
      by (auto simp: findBestFit_snoc bestFitStep_def)
    with snoc.IH False show ?thesis
      by (auto simp: nth_append less_Suc_eq)
  qed
qed

lemma findBestFit_least:
  "findBestFit d xs = Some (i, fit) \<Longrightarrow> k < length xs \<Longrightarrow> \<not> used (xs ! k) \<Longrightarrow>
     d \<le> remaining_time (xs ! k) \<Longrightarrow> fit \<le> remaining_time (xs ! k) - d"
proof (induction xs arbitrary: i fit k rule: rev_induct)
  case Nil
  then show ?case by simp
next
  case (snoc x xs)
  show ?case
  proof (cases "findBestFit d xs")
    case None
    with snoc.prems(1) have new: "\<not> used x" "d \<le> remaining_time x" "fit = remaining_time x - d"
      by (auto simp: findBestFit_snoc bestFitStep_def Let_def split: if_splits)
    from None have "\<forall>k<length xs. used (xs ! k) \<or> remaining_time (xs ! k) < d"
      by (simp add: findBestFit_None)
    with snoc.prems(2-4) have "k = length xs"
      by (auto simp: nth_append less_Suc_eq split: if_splits)
    with new show ?thesis by simp
  next
    case (Some a)
    obtain i0 fit0 where a: "a = (i0, fit0)" by (cases a)
    with Some have prev: "findBestFit d xs = Some (i0, fit0)" by simp
    from snoc.prems(1) prev have le: "fit \<le> fit0"
      by (auto simp: findBestFit_snoc bestFitStep_def Let_def split: if_splits)
    show ?thesis
    proof (cases "k < length xs")
      case True
      with snoc.prems(3,4) have "\<not> used (xs ! k)" "d \<le> remaining_time (xs ! k)"
        by (simp_all add: nth_append)
      from snoc.IH[OF prev True this] le True show ?thesis by (simp add: nth_append)
    next
      case False
      with snoc.prems(2) have k: "k = length xs" by simp
      with snoc.prems(3,4) have "\<not> used x" "d \<le> remaining_time x" by simp_all
      with snoc.prems(1) prev k show ?thesis
        by (auto simp: findBestFit_snoc bestFitStep_def Let_def split: if_splits)
    qed
  qed
qed

text \<open>
  Claim C4 asks that every task gets its turn in the first strategy. The source removes a
  placed task from the array that \<open>forEach\<close> is walking, so the task that follows a
  placed one is never visited. Two tasks of 30 minutes and one slot of 100 minutes: the
  first strategy places the first task and leaves the second, although the slot still
  holds it; the second strategy then places it with confidence 0.8.
\<close>

theorem perfect_fit_skips_task:
  "fst (strategy1 2 0
          [exampleAnalyzed ''A'' 30 ''medium'', exampleAnalyzed ''B'' 30 ''medium'']
          (map makeAvailable [exampleSlot 100]) [])
     = [exampleAnalyzed ''B'' 30 ''medium'']
   \<and> itemTaskId
       (optimized_schedule
          (exampleCall
             [exampleTask ''A'' 30 ''medium'' None, exampleTask ''B'' 30 ''medium'' None]
             [exampleSlot 100]) ! 1) = ''task_0_B''
   \<and> scheduling_confidence
       (optimized_schedule
          (exampleCall
             [exampleTask ''A'' 30 ''medium'' None, exampleTask ''B'' 30 ''medium'' None]
             [exampleSlot 100]) ! 1) = 8/10"
  by code_simp

subsection \<open>Repeated calls\<close>

text \<open>
  Claim C9 as stated fails: two calls with the same inputs can differ, since the deadline
  urgency depends on the clock.
  A task due ten hours after the epoch has urgency 0.9 at the epoch and 1.0 five hours
  later.
\<close>

theorem clock_counterexample:
  "optimized_schedule
     (processScheduleLocally tenOClockDates (frozenClock 0)
        [exampleTask ''A'' 60 ''high'' (Some ''1970-01-01T10:00:00Z'')] [exampleSlot 90]
        5 ''focused'')
   \<noteq> optimized_schedule
     (processScheduleLocally tenOClockDates (frozenClock 18000000)
        [exampleTask ''A'' 60 ''high'' (Some ''1970-01-01T10:00:00Z'')] [exampleSlot 90]
        5 ''focused'')"
  by code_simp

lemma calculateDeadlineUrgency_clock:
  fixes t :: task
  assumes "hasDeadline t \<Longrightarrow> clk n = clk' n"
  shows "calculateDeadlineUrgency parseDate clk n t = calculateDeadlineUrgency parseDate clk' n t"
    and "snd (calculateDeadlineUrgency parseDate clk n t) = (if hasDeadline t then Suc n else n)"
  using assms
  by (auto simp: calculateDeadlineUrgency_def hasDeadline_def Let_def split: option.splits)

lemma analyzeTask_clock:
  assumes "hasDeadline t \<Longrightarrow> clk n = clk' n \<and> clk (Suc n) = clk' (Suc n)"
  shows "analyzeTask parseDate clk stressLevel n t = analyzeTask parseDate clk' stressLevel n t"
    and "snd (analyzeTask parseDate clk stressLevel n t) = (if hasDeadline t then n + 2 else n)"
proof -
  have u: "calculateDeadlineUrgency parseDate clk n t
             = calculateDeadlineUrgency parseDate clk' n t"
    using assms by (intro calculateDeadlineUrgency_clock(1)) simp
  have n1: "snd (calculateDeadlineUrgency parseDate clk' n t)
              = (if hasDeadline t then Suc n else n)"
    by (rule calculateDeadlineUrgency_clock(2)) simp
  let ?n1 = "snd (calculateDeadlineUrgency parseDate clk' n t)"
  have v: "calculateDeadlineUrgency parseDate clk ?n1 t
             = calculateDeadlineUrgency parseDate clk' ?n1 t"
    using assms n1 by (intro calculateDeadlineUrgency_clock(1)) simp
  have n2: "snd (calculateDeadlineUrgency parseDate clk' ?n1 t)
              = (if hasDeadline t then n + 2 else n)"
    using n1 calculateDeadlineUrgency_clock(2)[of t clk' ?n1 clk' parseDate] by simp
  show "analyzeTask parseDate clk stressLevel n t = analyzeTask parseDate clk' stressLevel n t"
    using u v by (simp add: analyzeTask_def calculateFinalPriority_def Let_def split_beta)
  show "snd (analyzeTask parseDate clk stressLevel n t) = (if hasDeadline t then n + 2 else n)"
    using u v n2
    by (simp add: analyzeTask_def calculateFinalPriority_def Let_def split_beta)
qed

lemma analyzeTasks_clock:
  assumes "\<forall>k. n \<le> k \<and> k < n + 2 * length (filter hasDeadline tasks) \<longrightarrow> clk k = clk' k"
  shows "analyzeTasks parseDate clk stressLevel n tasks
           = analyzeTasks parseDate clk' stressLevel n tasks
         \<and> snd (analyzeTasks parseDate clk stressLevel n tasks)
           = n + 2 * length (filter hasDeadline tasks)"
  using assms
proof (induction tasks arbitrary: n)
  case Nil
  then show ?case by simp
next
  case (Cons t tasks)
  have same: "analyzeTask parseDate clk stressLevel n t = analyzeTask parseDate clk' stressLevel n t"
    and cnt: "snd (analyzeTask parseDate clk stressLevel n t) = (if hasDeadline t then n + 2 else n)"
    using Cons.prems by (intro analyzeTask_clock; simp)+
  let ?n1 = "snd (analyzeTask parseDate clk stressLevel n t)"
  have "\<forall>k. ?n1 \<le> k \<and> k < ?n1 + 2 * length (filter hasDeadline tasks) \<longrightarrow> clk k = clk' k"
    using Cons.prems cnt by auto
  from Cons.IH[OF this] same cnt show ?case
    by (auto simp: Let_def split: prod.splits)
qed

text \<open>
  Claim C9, as amended. Two calls with identical inputs that read the same clock values
  return identical results. A call reads the clock twice for each task with a deadline,
  and once more for \<open>generated_at\<close>.
\<close>

theorem same_clock_same_result:
  assumes "\<forall>k \<le> 2 * length (filter hasDeadline tasks). clk k = clk' k"
  shows "processScheduleLocally parseDate clk tasks timeSlots stressLevel mood
           = processScheduleLocally parseDate clk' tasks timeSlots stressLevel mood"
proof -
  from assms
  have "\<forall>k. 0 \<le> k \<and> k < 0 + 2 * length (filter hasDeadline tasks) \<longrightarrow> clk k = clk' k"
    by simp
  note both = analyzeTasks_clock[OF this, of parseDate stressLevel]
  from both have same: "analyzeTasks parseDate clk stressLevel 0 tasks
                = analyzeTasks parseDate clk' stressLevel 0 tasks"
    by (rule conjunct1)
  from both have "snd (analyzeTasks parseDate clk stressLevel 0 tasks)
                = 0 + 2 * length (filter hasDeadline tasks)"
    by (rule conjunct2)
  with same have cnt: "snd (analyzeTasks parseDate clk' stressLevel 0 tasks)
                = 2 * length (filter hasDeadline tasks)"
    by simp
  from assms cnt
  have "clk (snd (analyzeTasks parseDate clk' stressLevel 0 tasks))
          = clk' (snd (analyzeTasks parseDate clk' stressLevel 0 tasks))"
    by simp
  with same show ?thesis
    by (simp add: processScheduleLocally_def Let_def split_beta)
qed

theorem same_clock_same_result_witness:
  "processScheduleLocally unreadableDates (frozenClock 0)
     [exampleTask ''A'' 60 ''high'' None] [exampleSlot 90] 5 ''focused''
   = processScheduleLocally unreadableDates tickingClock
     [exampleTask ''A'' 60 ''high'' None] [exampleSlot 90] 5 ''focused''"
proof -
  have "\<forall>k \<le> 2 * length (filter hasDeadline [exampleTask ''A'' 60 ''high'' None]).
          frozenClock 0 k = tickingClock k"
    by (simp add: hasDeadline_def exampleTask_def frozenClock_def tickingClock_def)
  from same_clock_same_result[OF this] show ?thesis .
qed

end
